theory Spec2Isabelle
  imports Complex_Main
begin

section \<open>Errors and tensor scalars\<close>

text \<open>
  The exceptions the modelled code can raise. A function that can raise returns
  \<open>error + 'a\<close>, with \<open>Inl\<close> carrying the exception.
\<close>

datatype error = RuntimeError | IndexError | ZeroDivisionError | TypeError
  | NameError | StatisticsError | ValueError | OverflowError

text \<open>
  Tensor entries and Python floats. Rounding is not modelled: a finite value is an exact
  real. The special values are kept, because the code builds \<open>-inf\<close> scores on
  purpose and filters the NaNs they produce, and the exponentials that the code calls
  itself overflow as they do on floats (\<open>torch_exp\<close> and \<open>math_exp\<close> below).
\<close>

datatype fl = Flt real | PosInf | NegInf | NaN

fun fl_neg :: "fl \<Rightarrow> fl" where
  "fl_neg (Flt x) = Flt (- x)"
| "fl_neg PosInf = NegInf"
| "fl_neg NegInf = PosInf"
| "fl_neg NaN = NaN"

fun fl_add :: "fl \<Rightarrow> fl \<Rightarrow> fl" where
  "fl_add NaN _ = NaN"
| "fl_add _ NaN = NaN"
| "fl_add (Flt x) (Flt y) = Flt (x + y)"
| "fl_add PosInf NegInf = NaN"
| "fl_add NegInf PosInf = NaN"
| "fl_add PosInf _ = PosInf"
| "fl_add _ PosInf = PosInf"
| "fl_add NegInf _ = NegInf"
| "fl_add _ NegInf = NegInf"

definition fl_sub :: "fl \<Rightarrow> fl \<Rightarrow> fl" where
  "fl_sub a b = fl_add a (fl_neg b)"

text \<open>The sign of a value that is not NaN: \<open>-1\<close>, \<open>0\<close> or \<open>1\<close>.\<close>

fun fl_sgn :: "fl \<Rightarrow> real" where
  "fl_sgn (Flt x) = sgn x"
| "fl_sgn PosInf = 1"
| "fl_sgn NegInf = - 1"
| "fl_sgn NaN = 0"

fun fl_mul :: "fl \<Rightarrow> fl \<Rightarrow> fl" where
  "fl_mul NaN _ = NaN"
| "fl_mul _ NaN = NaN"
| "fl_mul (Flt x) (Flt y) = Flt (x * y)"
| "fl_mul a b =
     (if fl_sgn a * fl_sgn b = 0 then NaN
      else if fl_sgn a * fl_sgn b > 0 then PosInf else NegInf)"

fun fl_div :: "fl \<Rightarrow> fl \<Rightarrow> fl" where
  "fl_div NaN _ = NaN"
| "fl_div _ NaN = NaN"
| "fl_div (Flt x) (Flt y) =
     (if y \<noteq> 0 then Flt (x / y)
      else if x = 0 then NaN else if x > 0 then PosInf else NegInf)"
| "fl_div (Flt x) _ = Flt 0"
| "fl_div a (Flt y) = (if fl_sgn a * (if y < 0 then - 1 else 1) > 0 then PosInf else NegInf)"
| "fl_div _ _ = NaN"

text \<open>
  The exponential inside the library's \<open>softmax\<close> and \<open>log_softmax\<close>, which
  compute the mathematical function and do not overflow.
\<close>

fun fl_exp :: "fl \<Rightarrow> fl" where
  "fl_exp (Flt x) = Flt (exp x)"
| "fl_exp PosInf = PosInf"
| "fl_exp NegInf = Flt 0"
| "fl_exp NaN = NaN"

text \<open>
  \<open>torch.exp\<close> on a tensor of 32-bit floats: a result above the largest such float
  is \<open>inf\<close>.
\<close>

definition float32_max :: real where
  "float32_max = (2 - 1 / 2 ^ 23) * 2 ^ 127"

fun torch_exp :: "fl \<Rightarrow> fl" where
  "torch_exp (Flt x) = (if exp x > float32_max then PosInf else Flt (exp x))"
| "torch_exp PosInf = PosInf"
| "torch_exp NegInf = Flt 0"
| "torch_exp NaN = NaN"

text \<open>
  \<open>math.exp\<close> on a Python float (64 bits): it raises \<open>OverflowError\<close> when the
  result is above the largest float.
\<close>

definition float64_max :: real where
  "float64_max = (2 - 1 / 2 ^ 52) * 2 ^ 1023"

fun math_exp :: "fl \<Rightarrow> error + fl" where
  "math_exp (Flt x) = (if exp x > float64_max then Inl OverflowError else Inr (Flt (exp x)))"
| "math_exp PosInf = Inr PosInf"
| "math_exp NegInf = Inr (Flt 0)"
| "math_exp NaN = Inr NaN"

fun fl_ln :: "fl \<Rightarrow> fl" where
  "fl_ln (Flt x) = (if x > 0 then Flt (ln x) else if x = 0 then NegInf else NaN)"
| "fl_ln PosInf = PosInf"
| "fl_ln NegInf = NaN"
| "fl_ln NaN = NaN"

fun fl_log2 :: "fl \<Rightarrow> fl" where
  "fl_log2 (Flt x) = (if x > 0 then Flt (log 2 x) else if x = 0 then NegInf else NaN)"
| "fl_log2 PosInf = PosInf"
| "fl_log2 NegInf = NaN"
| "fl_log2 NaN = NaN"

text \<open>\<open>a > b\<close> and \<open>a == b\<close> on floats: both are false when a NaN is involved.\<close>

fun fl_gt :: "fl \<Rightarrow> fl \<Rightarrow> bool" where
  "fl_gt NaN _ = False"
| "fl_gt _ NaN = False"
| "fl_gt (Flt x) (Flt y) = (x > y)"
| "fl_gt PosInf b = (b \<noteq> PosInf)"
| "fl_gt a NegInf = (a \<noteq> NegInf)"
| "fl_gt _ _ = False"

fun fl_eq :: "fl \<Rightarrow> fl \<Rightarrow> bool" where
  "fl_eq NaN _ = False"
| "fl_eq _ NaN = False"
| "fl_eq a b = (a = b)"

text \<open>\<open>torch.sum\<close> of a vector; the sum of no entries is \<open>0\<close>.\<close>

definition fl_sum :: "fl list \<Rightarrow> fl" where
  "fl_sum xs = foldr fl_add xs (Flt 0)"

text \<open>Indexing a Python list or a tensor dimension with a non-negative index.\<close>

definition nth_err :: "'a list \<Rightarrow> nat \<Rightarrow> error + 'a" where
  "nth_err xs i = (if i < length xs then Inr (xs ! i) else Inl IndexError)"

text \<open>
  \<open>torch.squeeze\<close> of a column of values, a tensor of shape \<open>[n, 1]\<close>: every
  dimension of size one goes, so a single value is left as a tensor without dimension,
  and indexing such a tensor raises.
\<close>

datatype tensor1 = Scalar fl | Vector "fl list"

definition squeeze :: "fl list \<Rightarrow> tensor1" where
  "squeeze xs = (if length xs = 1 then Scalar (hd xs) else Vector xs)"

fun tensor_map :: "(fl \<Rightarrow> fl) \<Rightarrow> tensor1 \<Rightarrow> tensor1" where
  "tensor_map g (Scalar x) = Scalar (g x)"
| "tensor_map g (Vector xs) = Vector (map g xs)"

fun tensor_nth :: "tensor1 \<Rightarrow> nat \<Rightarrow> error + fl" where
  "tensor_nth (Scalar x) i = Inl IndexError"
| "tensor_nth (Vector xs) i = nth_err xs i"


section \<open>Command-line arguments, corpus and formatting\<close>

text \<open>
  The fields of \<open>args\<close> that the modelled functions read. \<open>lr\<close> is the module-level
  learning rate, which in test mode is \<open>args.lr\<close> throughout.
\<close>

record args =
  complexn :: int
  softcliptopk :: bool
  guess :: bool
  guessn :: int
  guessscores :: bool
  guessratios :: bool
  guessprobs :: bool
  csep :: string
  words :: bool
  nocheader :: bool
  adapt :: bool
  clip :: real
  view_layer :: int
  view_hidden :: bool
  lr :: real
  multisentence_test :: bool
  nopp :: bool

text \<open>
  The corpus dictionary: \<open>idx2word\<close> is the list of words by index, and
  \<open>len(corpus.dictionary)\<close> is its length.
\<close>

record corpus =
  idx2word :: "string list"

definition ntokens_of :: "corpus \<Rightarrow> nat" where
  "ntokens_of c = length (idx2word c)"

text \<open>
  How Python prints a float (\<open>str\<close>) and formats it with \<open>{:.3f}\<close>, \<open>{:5.2f}\<close>
  and \<open>{:8.2f}\<close> is taken as a parameter; \<open>str\<close> of an integer is decimal.
\<close>

record fmt =
  str_float :: "fl \<Rightarrow> string"
  fmt3 :: "fl \<Rightarrow> string"
  fmt52 :: "fl \<Rightarrow> string"
  fmt82 :: "fl \<Rightarrow> string"

fun str_nat :: "nat \<Rightarrow> string" where
  "str_nat n =
     (if n < 10 then [char_of (48 + n)]
      else str_nat (n div 10) @ [char_of (48 + n mod 10)])"

declare str_nat.simps [simp del]

definition str_int :: "int \<Rightarrow> string" where
  "str_int i = (if i < 0 then CHR ''-'' # str_nat (nat (- i)) else str_nat (nat i))"

text \<open>\<open>sep.join(xs)\<close>.\<close>

fun join :: "string \<Rightarrow> string list \<Rightarrow> string" where
  "join sep [] = []"
| "join sep [x] = x"
| "join sep (x # y # ys) = x @ sep @ join sep (y # ys)"

text \<open>
  A Python number that is an \<open>int\<close> or a \<open>float\<close>: \<open>max(0, x)\<close> returns the
  integer \<open>0\<close> unless the float \<open>x\<close> is greater than it.
\<close>

datatype pynum = PyInt int | PyFloat fl

fun num_val :: "pynum \<Rightarrow> fl" where
  "num_val (PyInt i) = Flt (real_of_int i)"
| "num_val (PyFloat x) = x"

definition str_num :: "fmt \<Rightarrow> pynum \<Rightarrow> string" where
  "str_num f n = (case n of PyInt i \<Rightarrow> str_int i | PyFloat x \<Rightarrow> str_float f x)"

definition py_max0 :: "fl \<Rightarrow> pynum" where
  "py_max0 x = (if fl_gt x (Flt 0) then PyFloat x else PyInt 0)"

section \<open>Complexity measures\<close>

text \<open>
  \<open>torch.topk(state, k, 0)\<close>: the \<open>k\<close> largest scores, largest first, with their
  indices; it raises when \<open>k\<close> is out of range. Among equal scores the lower index comes
  first here (the library leaves the order of ties open).
\<close>

definition topk :: "real list \<Rightarrow> int \<Rightarrow> error + (real list \<times> nat list)" where
  "topk state k =
     (if k < 0 \<or> int (length state) < k then Inl RuntimeError
      else let ix = take (nat k) (sort_key (\<lambda>i. - (state ! i)) [0..<length state])
           in Inr (map (\<lambda>i. state ! i) ix, ix))"

text \<open>\<open>base.scatter(0, ix, vals)\<close>: entry \<open>ix[j]\<close> of the result is \<open>vals[j]\<close>.\<close>

definition scatter :: "fl list \<Rightarrow> nat list \<Rightarrow> real list \<Rightarrow> fl list" where
  "scatter base ix vals = fold (\<lambda>(i, v) b. b[i := Flt v]) (zip ix vals) base"

text \<open>
  The vector \<open>beam\<close> that \<open>get_entropy\<close> and \<open>get_surps\<close> both build, with the same
  code: the scores themselves when \<open>complexn\<close> is \<open>0\<close>, otherwise the top
  \<open>complexn\<close> scores scattered into a vector filled with \<open>0\<close> (\<open>softcliptopk\<close>) or
  with \<open>-inf\<close>.
\<close>

definition beam :: "args \<Rightarrow> real list \<Rightarrow> error + fl list" where
  "beam a state =
     (if complexn a = 0 then Inr (map Flt state)
      else case topk state (complexn a) of
             Inl e \<Rightarrow> Inl e
           | Inr (beamk, beamix) \<Rightarrow>
               if softcliptopk a
               then Inr (scatter (replicate (length state) (Flt 0)) beamix beamk)
               else Inr (scatter (replicate (length state) NegInf) beamix beamk))"

definition softmax :: "fl list \<Rightarrow> fl list" where
  "softmax xs = (let z = fl_sum (map fl_exp xs) in map (\<lambda>x. fl_div (fl_exp x) z) xs)"

definition log_softmax :: "fl list \<Rightarrow> fl list" where
  "log_softmax xs = (let z = fl_sum (map fl_exp xs) in map (\<lambda>x. fl_sub x (fl_ln z)) xs)"

definition get_entropy :: "args \<Rightarrow> real list \<Rightarrow> error + fl" where
  "get_entropy a state =
     (case beam a state of
        Inl e \<Rightarrow> Inl e
      | Inr b \<Rightarrow>
          let probs = softmax b;
              logprobs = log_softmax b;
              prod = map2 fl_mul probs logprobs
          in Inr (fl_mul (Flt (- 1)) (fl_sum (filter (\<lambda>p. fl_eq p p) prod))))"

definition get_surps :: "args \<Rightarrow> real list \<Rightarrow> error + fl list" where
  "get_surps a state =
     (case beam a state of
        Inl e \<Rightarrow> Inl e
      | Inr b \<Rightarrow> Inr (map (fl_mul (Flt (- 1))) (log_softmax b)))"

text \<open>\<open>get_guesses(state)\<close> returns the indices, \<open>get_guessscores(state)\<close> the scores.\<close>

definition get_guesses :: "args \<Rightarrow> real list \<Rightarrow> error + nat list" where
  "get_guesses a state =
     (case topk state (guessn a) of Inl e \<Rightarrow> Inl e | Inr (guessvals, guessixes) \<Rightarrow> Inr guessixes)"

definition get_guessscores :: "args \<Rightarrow> real list \<Rightarrow> error + real list" where
  "get_guessscores a state =
     (case topk state (guessn a) of Inl e \<Rightarrow> Inl e | Inr (guessvals, guessixes) \<Rightarrow> Inr guessvals)"

text \<open>
  \<open>apply(func, t)\<close>: \<open>func\<close> on every row of \<open>t\<close>, the results stacked.
  \<open>torch.stack\<close> raises on an empty list.
\<close>

fun map_err :: "('a \<Rightarrow> error + 'b) \<Rightarrow> 'a list \<Rightarrow> error + 'b list" where
  "map_err f [] = Inr []"
| "map_err f (x # xs) =
     (case f x of
        Inl e \<Rightarrow> Inl e
      | Inr y \<Rightarrow> (case map_err f xs of Inl e \<Rightarrow> Inl e | Inr ys \<Rightarrow> Inr (y # ys)))"

definition apply_rows :: "('a \<Rightarrow> error + 'b) \<Rightarrow> 'a list \<Rightarrow> error + 'b list" where
  "apply_rows func t =
     (case map_err func t of
        Inl e \<Rightarrow> Inl e
      | Inr output_list \<Rightarrow> if output_list = [] then Inl RuntimeError else Inr output_list)"

section \<open>Word-level complexity output\<close>

text \<open>
  One printed row of \<open>get_complexity\<close>, before it is turned into text: the fields in
  the order of the list that the code joins. \<open>row_guesses\<close> is the list
  \<open>outputguesses\<close> when guessing is on.
\<close>

record crow =
  row_word :: string
  row_sentid :: nat
  row_sentpos :: nat
  row_wlen :: nat
  row_surp :: fl
  row_entropy :: fl
  row_entred :: pynum
  row_guesses :: "string list option"

text \<open>
  The text a guess contributes after its word: its raw score, its ratio to the best
  score, or its probability over the n-best list, in the order the code tests the flags.
  Python's float division raises on a zero divisor.
\<close>

definition guess_score :: "args \<Rightarrow> fmt \<Rightarrow> real list \<Rightarrow> nat \<Rightarrow> error + string list" where
  "guess_score a f scores guess_ix =
     (if guessscores a then
        (case nth_err scores guess_ix of Inl e \<Rightarrow> Inl e | Inr s \<Rightarrow> Inr [fmt3 f (Flt s)])
      else if guessratios a then
        (case nth_err scores guess_ix of
           Inl e \<Rightarrow> Inl e
         | Inr s \<Rightarrow>
             (case nth_err scores 0 of
                Inl e \<Rightarrow> Inl e
              | Inr s0 \<Rightarrow> if s0 = 0 then Inl ZeroDivisionError else Inr [fmt3 f (Flt (s / s0))]))
      else if guessprobs a then
        (case nth_err (log_softmax (map Flt scores)) guess_ix of
           Inl e \<Rightarrow> Inl e
         | Inr l \<Rightarrow> (case math_exp l of Inl e \<Rightarrow> Inl e | Inr p \<Rightarrow> Inr [fmt3 f p]))
      else Inr [])"

fun output_guesses ::
  "args \<Rightarrow> corpus \<Rightarrow> fmt \<Rightarrow> nat list \<Rightarrow> real list \<Rightarrow> nat list \<Rightarrow> error + string list" where
  "output_guesses a c f guesses scores [] = Inr []"
| "output_guesses a c f guesses scores (guess_ix # rest) =
     (case nth_err guesses guess_ix of
        Inl e \<Rightarrow> Inl e
      | Inr g \<Rightarrow>
          (case nth_err (idx2word c) g of
             Inl e \<Rightarrow> Inl e
           | Inr w \<Rightarrow>
               (case guess_score a f scores guess_ix of
                  Inl e \<Rightarrow> Inl e
                | Inr sc \<Rightarrow>
                    (case output_guesses a c f guesses scores rest of
                       Inl e \<Rightarrow> Inl e
                     | Inr others \<Rightarrow> Inr (w # sc @ others)))))"

text \<open>\<open>float(Hs[max(corpuspos-1, 0)]) - float(Hs[corpuspos])\<close>, clipped by \<open>max(0, _)\<close>.\<close>

definition entred_at :: "tensor1 \<Rightarrow> nat \<Rightarrow> error + pynum" where
  "entred_at Hs corpuspos =
     (case tensor_nth Hs (nat (max (int corpuspos - 1) 0)) of
        Inl e \<Rightarrow> Inl e
      | Inr hprev \<Rightarrow>
          (case tensor_nth Hs corpuspos of
             Inl e \<Rightarrow> Inl e
           | Inr h \<Rightarrow> Inr (py_max0 (fl_sub hprev h))))"

text \<open>
  The body of the loop over \<open>enumerate(obs)\<close>: \<open>None\<close> when the target word is
  \<open><eos>\<close> and nothing is printed, otherwise the row.
\<close>

definition complexity_row ::
  "args \<Rightarrow> corpus \<Rightarrow> fmt \<Rightarrow> tensor1 \<Rightarrow> fl list list \<Rightarrow> nat list list \<Rightarrow> real list list
     \<Rightarrow> nat \<Rightarrow> nat \<Rightarrow> nat \<Rightarrow> error + crow option" where
  "complexity_row a c f Hs surps guesses gscores sentid corpuspos targ =
     (case nth_err (idx2word c) targ of
        Inl e \<Rightarrow> Inl e
      | Inr w \<Rightarrow>
          if w = ''<eos>'' then Inr None
          else
            (case nth_err surps corpuspos of
               Inl e \<Rightarrow> Inl e
             | Inr srow \<Rightarrow>
                 (case nth_err srow targ of
                    Inl e \<Rightarrow> Inl e
                  | Inr surp \<Rightarrow>
                      (case (if guess a
                             then (case nth_err guesses corpuspos of
                                     Inl e \<Rightarrow> Inl e
                                   | Inr g \<Rightarrow>
                                       (case nth_err gscores corpuspos of
                                          Inl e \<Rightarrow> Inl e
                                        | Inr gs \<Rightarrow>
                                            (case output_guesses a c f g gs [0..<nat (guessn a)] of
                                               Inl e \<Rightarrow> Inl e
                                             | Inr og \<Rightarrow> Inr (Some og))))
                             else Inr None) of
                         Inl e \<Rightarrow> Inl e
                       | Inr outputguesses \<Rightarrow>
                           (case tensor_nth Hs corpuspos of
                              Inl e \<Rightarrow> Inl e
                            | Inr h \<Rightarrow>
                                (case entred_at Hs corpuspos of
                                   Inl e \<Rightarrow> Inl e
                                 | Inr er \<Rightarrow>
                                     Inr (Some \<lparr>row_word = w, row_sentid = sentid,
                                                row_sentpos = corpuspos, row_wlen = length w,
                                                row_surp = surp, row_entropy = h,
                                                row_entred = er,
                                                row_guesses = outputguesses\<rparr>)))))))"

text \<open>
  The line printed for a row: the seven fields joined by the separator, and in guess mode
  an eighth element, the guesses joined by the separator.
\<close>

definition row_fields :: "fmt \<Rightarrow> crow \<Rightarrow> string list" where
  "row_fields f r =
     [row_word r, str_nat (row_sentid r), str_nat (row_sentpos r), str_nat (row_wlen r),
      str_float f (row_surp r), str_float f (row_entropy r), str_num f (row_entred r)]"

definition print_row :: "args \<Rightarrow> fmt \<Rightarrow> crow \<Rightarrow> string" where
  "print_row a f r =
     (case row_guesses r of
        Some og \<Rightarrow> join (csep a) (row_fields f r @ [join (csep a) og])
      | None \<Rightarrow> join (csep a) (row_fields f r))"

text \<open>
  The loop: rows printed so far, and the exception that ended the loop, if any.
\<close>

fun complexity_loop ::
  "args \<Rightarrow> corpus \<Rightarrow> fmt \<Rightarrow> tensor1 \<Rightarrow> fl list list \<Rightarrow> nat list list \<Rightarrow> real list list
     \<Rightarrow> nat \<Rightarrow> (nat \<times> nat) list \<Rightarrow> crow list \<times> error option" where
  "complexity_loop a c f Hs surps guesses gscores sentid [] = ([], None)"
| "complexity_loop a c f Hs surps guesses gscores sentid ((corpuspos, targ) # rest) =
     (case complexity_row a c f Hs surps guesses gscores sentid corpuspos targ of
        Inl e \<Rightarrow> ([], Some e)
      | Inr None \<Rightarrow> complexity_loop a c f Hs surps guesses gscores sentid rest
      | Inr (Some r) \<Rightarrow>
          (case complexity_loop a c f Hs surps guesses gscores sentid rest of
             (rows, err) \<Rightarrow> (r # rows, err)))"

text \<open>
  \<open>get_complexity(state, obs, sentid)\<close>: \<open>state\<close> is the matrix of scores, one row
  per position, \<open>obs\<close> the observed next words. The entropies and surprisals are
  converted from nats to bits by \<open>torch.log2(torch.exp(_))\<close>; the entropies, one
  value per position, are squeezed first.
\<close>

definition complexity_Hs :: "args \<Rightarrow> real list list \<Rightarrow> error + tensor1" where
  "complexity_Hs a state =
     (case apply_rows (get_entropy a) state of
        Inl e \<Rightarrow> Inl e
      | Inr hs \<Rightarrow> Inr (tensor_map fl_log2 (tensor_map torch_exp (squeeze hs))))"

definition complexity_surps :: "args \<Rightarrow> real list list \<Rightarrow> error + fl list list" where
  "complexity_surps a state =
     (case apply_rows (get_surps a) state of
        Inl e \<Rightarrow> Inl e
      | Inr ss \<Rightarrow> Inr (map (map (\<lambda>s. fl_log2 (torch_exp s))) ss))"

definition get_complexity_rows ::
  "args \<Rightarrow> corpus \<Rightarrow> fmt \<Rightarrow> real list list \<Rightarrow> nat list \<Rightarrow> nat \<Rightarrow> crow list \<times> error option" where
  "get_complexity_rows a c f state obs sentid =
     (case complexity_Hs a state of
        Inl e \<Rightarrow> ([], Some e)
      | Inr Hs \<Rightarrow>
          (case complexity_surps a state of
             Inl e \<Rightarrow> ([], Some e)
           | Inr surps \<Rightarrow>
               (case (if guess a
                      then (case apply_rows (get_guesses a) state of
                              Inl e \<Rightarrow> Inl e
                            | Inr g \<Rightarrow>
                                (case apply_rows (get_guessscores a) state of
                                   Inl e \<Rightarrow> Inl e
                                 | Inr gs \<Rightarrow> Inr (g, gs)))
                      else Inr ([], [])) of
                  Inl e \<Rightarrow> ([], Some e)
                | Inr (guesses, gscores) \<Rightarrow>
                    complexity_loop a c f Hs surps guesses gscores sentid
                      (zip [0..<length obs] obs))))"

definition get_complexity ::
  "args \<Rightarrow> corpus \<Rightarrow> fmt \<Rightarrow> real list list \<Rightarrow> nat list \<Rightarrow> nat \<Rightarrow> string list \<times> error option" where
  "get_complexity a c f state obs sentid =
     (case get_complexity_rows a c f state obs sentid of
        (rows, err) \<Rightarrow> (map (print_row a f) rows, err))"

section \<open>Reference notions\<close>

text \<open>
  The notions the properties below are stated with: the softmax distribution of a score
  vector, a distribution renormalised over a set of classes, and Shannon entropy in nats
  and in bits.
\<close>

definition softmax_prob :: "real list \<Rightarrow> nat \<Rightarrow> real" where
  "softmax_prob xs i = exp (xs ! i) / (\<Sum>j<length xs. exp (xs ! j))"

definition renorm :: "(nat \<Rightarrow> real) \<Rightarrow> nat set \<Rightarrow> nat \<Rightarrow> real" where
  "renorm p S i = (if i \<in> S then p i / (\<Sum>j\<in>S. p j) else 0)"

definition entropy_nats :: "(nat \<Rightarrow> real) \<Rightarrow> nat set \<Rightarrow> real" where
  "entropy_nats p S = - (\<Sum>i\<in>S. p i * ln (p i))"

definition entropy_bits :: "(nat \<Rightarrow> real) \<Rightarrow> nat set \<Rightarrow> real" where
  "entropy_bits p S = - (\<Sum>i\<in>S. p i * log 2 (p i))"

text \<open>
  The score vector that keeps the scores of the classes in \<open>S\<close> and is \<open>-inf\<close>
  elsewhere.
\<close>

definition beam_on :: "real list \<Rightarrow> nat set \<Rightarrow> fl list" where
  "beam_on state S = map (\<lambda>i. if i \<in> S then Flt (state ! i) else NegInf) [0..<length state]"










section \<open>Test-time evaluation\<close>

text \<open>
  The header of the complexity output, as \<open>test_evaluate\<close> prints it piece by piece:
  the seven column names (with \<open>complexn\<close> appended to the last three when it is
  not the vocabulary size), then for every guess its name and the name of its score.
\<close>

definition header_base :: "args \<Rightarrow> nat \<Rightarrow> string" where
  "header_base a ntokens =
     (if complexn a = int ntokens
      then ''word'' @ csep a @ ''sentid'' @ csep a @ ''sentpos'' @ csep a @ ''wlen'' @ csep a @
           ''surp'' @ csep a @ ''entropy'' @ csep a @ ''entred''
      else ''word'' @ csep a @ ''sentid'' @ csep a @ ''sentpos'' @ csep a @ ''wlen'' @ csep a @
           ''surp'' @ str_int (complexn a) @ csep a @ ''entropy'' @ str_int (complexn a) @
           csep a @ ''entred'' @ str_int (complexn a))"

definition guess_header :: "args \<Rightarrow> nat \<Rightarrow> string" where
  "guess_header a i =
     csep a @ ''guess'' @ str_nat i @
     (if guessscores a then csep a @ ''gscore'' @ str_nat i
      else if guessprobs a then csep a @ ''gprob'' @ str_nat i
      else if guessratios a then csep a @ ''gratio'' @ str_nat i
      else [])"

definition header_line :: "args \<Rightarrow> nat \<Rightarrow> string" where
  "header_line a ntokens =
     header_base a ntokens @
     (if guess a then concat (map (guess_header a) [0..<nat (guessn a)]) else [])"

text \<open>
  A model parameter: its value and its gradient (\<open>None\<close> when it has none). The network
  itself, the loss and its gradient belong to the numerical library and are parameters
  of the evaluation: \<open>model_call\<close> is \<open>model(data, hidden)\<close> with the output
  flattened, \<open>loss_grad\<close> is the gradient that \<open>loss.backward()\<close> adds to parameter
  \<open>j\<close>, \<open>hidden_line\<close> the text printed for a hidden or cell state.
\<close>

record param =
  pdata :: real
  pgrad :: "real option"

record 'h env =
  model_call :: "real list \<Rightarrow> nat list \<Rightarrow> 'h \<Rightarrow> real list \<times> 'h"
  init_hidden :: "'h"
  criterion :: "real list list \<Rightarrow> nat list \<Rightarrow> error + fl"
  loss_grad :: "real list \<Rightarrow> nat list \<Rightarrow> nat list \<Rightarrow> nat \<Rightarrow> real option"
  hidden_line :: "bool \<Rightarrow> int \<Rightarrow> 'h \<Rightarrow> string"

text \<open>What evaluation changes: the two output streams, the model and the counters.\<close>

record tstate =
  stdout :: "string list"
  stderr :: "string list"
  model_params :: "param list"
  total_loss :: fl
  nwords :: nat

text \<open>
  \<open>output.view(-1, ntokens)\<close>: the flat output cut into rows of \<open>ntokens\<close> entries;
  it raises when the output does not divide into such rows.
\<close>

definition view_rows :: "nat \<Rightarrow> real list \<Rightarrow> error + real list list" where
  "view_rows ntokens output =
     (if ntokens = 0 \<or> length output mod ntokens \<noteq> 0 then Inl RuntimeError
      else Inr (map (\<lambda>i. take ntokens (drop (i * ntokens) output))
                  [0..<length output div ntokens]))"

definition test_get_batch :: "nat list \<Rightarrow> nat list \<times> nat list" where
  "test_get_batch source =
     (let seq_len = length source - 1
      in (take seq_len source, take seq_len (drop 1 source)))"

text \<open>
  \<open>loss.backward()\<close> adds the gradient of the loss to the gradient of every parameter;
  \<open>model.zero_grad()\<close> zeroes the gradients that exist.
\<close>

definition accumulate :: "real option \<Rightarrow> real option \<Rightarrow> real option" where
  "accumulate old new =
     (case new of None \<Rightarrow> old | Some g \<Rightarrow> (case old of None \<Rightarrow> Some g | Some acc \<Rightarrow> Some (acc + g)))"

definition backward :: "'h env \<Rightarrow> nat list \<Rightarrow> nat list \<Rightarrow> param list \<Rightarrow> param list" where
  "backward env data targets ps =
     map (\<lambda>(j, p). p\<lparr>pgrad := accumulate (pgrad p) (loss_grad env (map pdata ps) data targets j)\<rparr>)
       (zip [0..<length ps] ps)"

definition zero_grad :: "param list \<Rightarrow> param list" where
  "zero_grad ps = map (\<lambda>p. p\<lparr>pgrad := map_option (\<lambda>g. 0) (pgrad p)\<rparr>) ps"

text \<open>
  \<open>torch.nn.utils.clip_grad_norm(parameters, max_norm)\<close>: when the norm of all
  gradients is above \<open>max_norm\<close>, every gradient is scaled by
  \<open>max_norm / (total_norm + 1e-6)\<close>.
\<close>

definition clip_coef :: "real \<Rightarrow> param list \<Rightarrow> real" where
  "clip_coef max_norm ps =
     (let total_norm = sqrt (\<Sum>p\<leftarrow>ps. (case pgrad p of None \<Rightarrow> 0 | Some g \<Rightarrow> g * g));
          coef = max_norm / (total_norm + 1 / 1000000)
      in if coef < 1 then coef else 1)"

definition clip_grad_norm :: "real \<Rightarrow> param list \<Rightarrow> param list" where
  "clip_grad_norm max_norm ps =
     map (\<lambda>p. p\<lparr>pgrad := map_option (\<lambda>g. g * clip_coef max_norm ps) (pgrad p)\<rparr>) ps"

text \<open>\<open>param.data.add_(-lr, param.grad.data)\<close> for every parameter with a gradient.\<close>

definition update_param :: "real \<Rightarrow> param \<Rightarrow> param" where
  "update_param rate p =
     (case pgrad p of None \<Rightarrow> p | Some g \<Rightarrow> p\<lparr>pdata := pdata p + (- rate) * g\<rparr>)"

definition adapt_step :: "args \<Rightarrow> 'h env \<Rightarrow> nat list \<Rightarrow> nat list \<Rightarrow> param list \<Rightarrow> param list" where
  "adapt_step a env data targets ps =
     map (update_param (lr a)) (clip_grad_norm (clip a) (backward env data targets ps))"

definition vocab_warning :: string where
  "vocab_warning =
     ''Vocabulary Error! Most likely there weren't unks in training and unks are now needed for testing''"

text \<open>
  The loop over the words of a sentence when \<open>view_layer >= 0\<close>: one call of the model
  per word, the reshape outside of any \<open>try\<close>, and the state of the chosen layer
  printed for every target but \<open><eos>\<close>.
\<close>

fun view_layer_loop ::
  "args \<Rightarrow> corpus \<Rightarrow> 'h env \<Rightarrow> nat \<Rightarrow> (nat \<times> nat) list \<Rightarrow> 'h \<Rightarrow> tstate \<Rightarrow> tstate \<times> error option" where
  "view_layer_loop a c env ntokens [] hidden st = (st, None)"
| "view_layer_loop a c env ntokens ((word_input, target) # rest) hidden st =
     (let st1 = st\<lparr>model_params := zero_grad (model_params st)\<rparr>;
          (output, hidden') = model_call env (map pdata (model_params st1)) [word_input] hidden
      in case view_rows ntokens output of
           Inl e \<Rightarrow> (st1, Some e)
         | Inr output_flat \<Rightarrow>
             (case criterion env output_flat [target] of
                Inl e \<Rightarrow> (st1, Some e)
              | Inr loss \<Rightarrow>
                  (let st2 = st1\<lparr>total_loss := fl_add (total_loss st1) loss\<rparr>
                   in case nth_err (idx2word c) target of
                        Inl e \<Rightarrow> (st2, Some e)
                      | Inr targ_word \<Rightarrow>
                          (let st3 = st2\<lparr>nwords := nwords st2 + 1\<rparr>;
                               st4 = (if targ_word \<noteq> ''<eos>''
                                      then st3\<lparr>stdout := stdout st3 @
                                             [hidden_line env (view_hidden a) (view_layer a) hidden']\<rparr>
                                      else st3)
                           in view_layer_loop a c env ntokens rest hidden' st4))))"

text \<open>
  The body of the loop over the sentences of \<open>data_source\<close>. Without \<open>view_layer\<close>
  the model is called once on the sentence, the reshape is guarded by the
  \<open>try\<close>/\<open>except\<close> that prints the warning and raises again, and the parameters are
  updated when \<open>adapt\<close> is set.
\<close>

definition eval_sentence ::
  "args \<Rightarrow> corpus \<Rightarrow> fmt \<Rightarrow> 'h env \<Rightarrow> string list \<Rightarrow> nat list list \<Rightarrow> nat \<Rightarrow> nat \<Rightarrow> tstate
     \<Rightarrow> tstate \<times> error option" where
  "eval_sentence a c f env test_sentences data_source ntokens i st =
     (case (if test_sentences \<noteq> [] then nth_err test_sentences i else Inr []) of
        Inl e \<Rightarrow> (st, Some e)
      | Inr sent \<Rightarrow>
          (let (data, targets) = test_get_batch (data_source ! i)
           in if view_layer a \<ge> 0
              then view_layer_loop a c env ntokens (zip data targets) (init_hidden env) st
              else
                (let (output, hidden) =
                       model_call env (map pdata (model_params st)) data (init_hidden env)
                 in case view_rows ntokens output of
                      Inl e \<Rightarrow> (st\<lparr>stdout := stdout st @ [vocab_warning]\<rparr>, Some e)
                    | Inr output_flat \<Rightarrow>
                        (case criterion env output_flat targets of
                           Inl e \<Rightarrow> (st, Some e)
                         | Inr loss \<Rightarrow>
                             (let st1 = st\<lparr>total_loss := fl_add (total_loss st) loss\<rparr>;
                                  (st2, err) =
                                    (if words a
                                     then (case get_complexity a c f output_flat targets i of
                                             (lines, err) \<Rightarrow>
                                               (st1\<lparr>stdout := stdout st1 @ lines\<rparr>, err))
                                     else if test_sentences \<noteq> []
                                     then (st1\<lparr>stdout := stdout st1 @
                                                  [sent @ '':'' @ str_float f loss]\<rparr>, None)
                                     else (st1\<lparr>stdout := stdout st1 @ [str_float f loss]\<rparr>, None))
                              in case err of
                                   Some e \<Rightarrow> (st2, Some e)
                                 | None \<Rightarrow>
                                     if adapt a
                                     then (st2\<lparr>model_params :=
                                                 adapt_step a env data targets (model_params st2)\<rparr>,
                                           None)
                                     else (st2, None))))))"

fun eval_loop ::
  "args \<Rightarrow> corpus \<Rightarrow> fmt \<Rightarrow> 'h env \<Rightarrow> string list \<Rightarrow> nat list list \<Rightarrow> nat \<Rightarrow> nat list \<Rightarrow> tstate
     \<Rightarrow> tstate \<times> error option" where
  "eval_loop a c f env test_sentences data_source ntokens [] st = (st, None)"
| "eval_loop a c f env test_sentences data_source ntokens (i # rest) st =
     (case eval_sentence a c f env test_sentences data_source ntokens i st of
        (st', Some e) \<Rightarrow> (st', Some e)
      | (st', None) \<Rightarrow> eval_loop a c f env test_sentences data_source ntokens rest st')"

text \<open>
  The start of \<open>test_evaluate\<close> sets \<open>complexn\<close> (and \<open>guessn\<close>) to the vocabulary
  size when \<open>complexn\<close> is out of range, and reports the beam size on stderr.
\<close>

definition set_beamsize :: "args \<Rightarrow> nat \<Rightarrow> args" where
  "set_beamsize a ntokens =
     (if complexn a > int ntokens \<or> complexn a \<le> 0
      then a\<lparr>complexn := int ntokens,
             guessn := (if guessn a > int ntokens then int ntokens else guessn a)\<rparr>
      else a)"

text \<open>Python's \<open>x / n\<close> for a float and an integer count.\<close>

definition py_div_count :: "fl \<Rightarrow> nat \<Rightarrow> error + fl" where
  "py_div_count x n = (if n = 0 then Inl ZeroDivisionError else Inr (fl_div x (Flt (real n))))"

text \<open>
  The start of \<open>test_evaluate\<close>: the arguments with the beam size set, and the state
  with the counters at zero, the beam size reported and the header printed.
\<close>

definition eval_start :: "args \<Rightarrow> corpus \<Rightarrow> tstate \<Rightarrow> args \<times> tstate" where
  "eval_start a c st =
     (let ntokens = ntokens_of c;
          a' = set_beamsize a ntokens;
          st0 = st\<lparr>total_loss := Flt 0, nwords := 0,
                   stderr := stderr st @ [''Using beamsize: '' @ str_int (complexn a')]\<rparr>
      in (a', if words a' \<and> \<not> nocheader a'
              then st0\<lparr>stdout := stdout st0 @ [header_line a' ntokens]\<rparr> else st0))"

text \<open>
  \<open>test_evaluate(test_sentences, data_source)\<close>: the state it leaves (output, model),
  the arguments as it changed them, and the mean loss it returns or the exception it
  raises.
\<close>

definition test_evaluate ::
  "args \<Rightarrow> corpus \<Rightarrow> fmt \<Rightarrow> 'h env \<Rightarrow> string list \<Rightarrow> nat list list \<Rightarrow> tstate
     \<Rightarrow> tstate \<times> args \<times> (error + fl)" where
  "test_evaluate a c f env test_sentences data_source st =
     (case eval_start a c st of
        (a', st1) \<Rightarrow>
          (case eval_loop a' c f env test_sentences data_source (ntokens_of c)
                  [0..<length data_source] st1 of
             (st2, Some e) \<Rightarrow> (st2, a', Inl e)
           | (st2, None) \<Rightarrow>
               (st2, a',
                if view_layer a' \<ge> 0 then py_div_count (total_loss st2) (nwords st2)
                else py_div_count (total_loss st2) (length data_source))))"

section \<open>The loop over the training epochs\<close>

text \<open>
  What the epoch loop keeps between epochs: the learning rate \<open>lr\<close>, the best
  validation loss so far, the count of epochs without improvement, and the epoch whose
  model the model file holds.
\<close>

record train_state =
  lr_cur :: real
  best_val_loss :: "real option"
  no_improvement :: nat
  model_file :: "nat option"

definition train_start :: "real \<Rightarrow> train_state" where
  "train_start lr0 = \<lparr>lr_cur = lr0, best_val_loss = None, no_improvement = 0, model_file = None\<rparr>"

text \<open>
  The end of one epoch, given the validation loss that \<open>evaluate(val_data)\<close> returned.
  The report of the epoch is printed first and needs \<open>math.exp(val_loss)\<close>; an
  exception there leaves the loop, which catches \<open>KeyboardInterrupt\<close> only. The
  condition that follows is Python's \<open>not best_val_loss or val_loss < best_val_loss\<close>,
  and \<open>not x\<close> holds for \<open>None\<close> and for \<open>0.0\<close>. The boolean says whether the loop
  goes on (\<open>False\<close> is the \<open>break\<close>).
\<close>

definition epoch_step :: "nat \<Rightarrow> real \<Rightarrow> train_state \<Rightarrow> error + (train_state \<times> bool)" where
  "epoch_step epoch val_loss st =
     (case math_exp (Flt val_loss) of
        Inl e \<Rightarrow> Inl e
      | Inr ppl \<Rightarrow>
          Inr (if (case best_val_loss st of None \<Rightarrow> True | Some b \<Rightarrow> b = 0 \<or> val_loss < b)
               then (st\<lparr>no_improvement := 0, model_file := Some epoch,
                        best_val_loss := Some val_loss\<rparr>, True)
               else if no_improvement st + 1 \<ge> 3
                    then (st\<lparr>no_improvement := no_improvement st + 1\<rparr>, False)
                    else (st\<lparr>no_improvement := no_improvement st + 1,
                             lr_cur := lr_cur st / 4\<rparr>, True)))"

text \<open>
  The loop \<open>for epoch in range(1, args.epochs+1)\<close>, over the validation losses of the
  epochs in order: the states after each epoch that was completed, and the exception that
  ended the loop, if one did.
\<close>

fun epoch_trace :: "nat \<Rightarrow> real list \<Rightarrow> train_state \<Rightarrow> train_state list \<times> error option" where
  "epoch_trace epoch [] st = ([], None)"
| "epoch_trace epoch (val_loss # rest) st =
     (case epoch_step epoch val_loss st of
        Inl e \<Rightarrow> ([], Some e)
      | Inr (st', continue) \<Rightarrow>
          if continue
          then (case epoch_trace (Suc epoch) rest st' of (sts, err) \<Rightarrow> (st' # sts, err))
          else ([st'], None))"
text \<open>
  A validation loss improves on the earlier ones when it is strictly lower than each of
  them. For a history of losses, most recent first: how many epochs in a row did not
  improve.
\<close>

definition improving :: "real list \<Rightarrow> real \<Rightarrow> bool" where
  "improving earlier v = (\<forall>u\<in>set earlier. v < u)"

fun streak_rev :: "real list \<Rightarrow> nat" where
  "streak_rev [] = 0"
| "streak_rev (v # older) = (if improving older v then 0 else Suc (streak_rev older))"

definition streak :: "real list \<Rightarrow> nat" where
  "streak hs = streak_rev (rev hs)"

text \<open>
  What holds between epochs, after the losses \<open>hs\<close> of the epochs so far: the best loss
  is their minimum, the counter is the current streak, which is below three, and the model
  file is from one of these epochs.
\<close>

definition train_inv :: "real list \<Rightarrow> train_state \<Rightarrow> bool" where
  "train_inv hs st \<longleftrightarrow>
     best_val_loss st = (if hs = [] then None else Some (Min (set hs))) \<and>
     no_improvement st = streak hs \<and> streak hs < 3 \<and>
     (\<forall>x. model_file st = Some x \<longrightarrow> x \<le> length hs)"

section \<open>Aggregation of the result files\<close>

text \<open>
  A row of a result file as \<open>compile_results.py\<close> reads it: the sentence id
  \<open>int(line[1])\<close> and the surprisal \<open>line[4]\<close>, which \<open>Entry\<close> turns into a
  float. An entry holds the surprisals of four sentences in a row, one per condition.
\<close>

record rline =
  line_sentid :: int
  line_surp :: real

record entry =
  high_sg :: real
  low_sg :: real
  low_pl :: real
  high_pl :: real

definition Entry :: "real list \<Rightarrow> entry" where
  "Entry surps = \<lparr>high_sg = surps ! 0, low_sg = surps ! 1, low_pl = surps ! 2, high_pl = surps ! 3\<rparr>"

text \<open>
  The variables of the loop over the lines of a file. \<open>surp\<close> is a module-level name: it
  is unbound until the first assignment and keeps its value from one file to the next.
\<close>

record file_state =
  cur_sentID :: int
  cur_last_line :: "rline option"
  cur_surps :: "real list"
  cur_entries :: "entry list"
  cur_surp :: "real option"

text \<open>
  \<open>surps.append(surp)\<close> followed by \<open>if len(surps) == 4\<close>; the list is emptied after
  an entry is made when \<open>reset\<close> is set, as inside the loop.
\<close>

definition append_surp :: "bool \<Rightarrow> real \<Rightarrow> file_state \<Rightarrow> file_state" where
  "append_surp reset s st =
     (let st1 = st\<lparr>cur_surps := cur_surps st @ [s]\<rparr>
      in if length (cur_surps st1) = 4
         then st1\<lparr>cur_entries := cur_entries st1 @ [Entry (cur_surps st1)],
                  cur_surps := (if reset then [] else cur_surps st1)\<rparr>
         else st1)"

definition line_step :: "rline \<Rightarrow> file_state \<Rightarrow> error + file_state" where
  "line_step line st =
     (if line_sentid line \<noteq> cur_sentID st
      then (case cur_last_line st of
              None \<Rightarrow> Inl TypeError
            | Some ll \<Rightarrow>
                Inr ((append_surp True (line_surp ll)
                        (st\<lparr>cur_sentID := line_sentid line, cur_surp := Some (line_surp ll)\<rparr>))
                      \<lparr>cur_last_line := Some line\<rparr>))
      else Inr (st\<lparr>cur_last_line := Some line\<rparr>))"

fun lines_loop :: "rline list \<Rightarrow> file_state \<Rightarrow> error + file_state" where
  "lines_loop [] st = Inr st"
| "lines_loop (line # rest) st =
     (case line_step line st of Inl e \<Rightarrow> Inl e | Inr st' \<Rightarrow> lines_loop rest st')"

text \<open>
  One file (its rows after the header): the entries so far and the current \<open>surp\<close> go
  in, and come out. After the loop the code appends \<open>surp\<close>, not the surprisal of the
  last line.
\<close>

definition read_file ::
  "rline list \<Rightarrow> entry list \<times> real option \<Rightarrow> error + (entry list \<times> real option)" where
  "read_file data es =
     (case lines_loop data \<lparr>cur_sentID = 0, cur_last_line = None, cur_surps = [], cur_entries = fst es,
                              cur_surp = snd es\<rparr> of
        Inl e \<Rightarrow> Inl e
      | Inr st \<Rightarrow>
          (case cur_surp st of
             None \<Rightarrow> Inl NameError
           | Some s \<Rightarrow> (let st' = append_surp False s st in Inr (cur_entries st', cur_surp st'))))"

fun read_files ::
  "rline list list \<Rightarrow> entry list \<times> real option \<Rightarrow> error + (entry list \<times> real option)" where
  "read_files [] es = Inr es"
| "read_files (f # fs) es =
     (case read_file f es of Inl e \<Rightarrow> Inl e | Inr es' \<Rightarrow> read_files fs es')"

text \<open>\<open>statistics.mean\<close>, which raises on no data.\<close>

definition mean :: "real list \<Rightarrow> error + real" where
  "mean xs = (if xs = [] then Inl StatisticsError else Inr (sum_list xs / real (length xs)))"

text \<open>
  The four means printed for an experiment, in the order \<open>HIGH SG\<close>, \<open>LOW SG\<close>,
  \<open>HIGH PL\<close>, \<open>LOW PL\<close>, together with \<open>surp\<close> as the experiment leaves it.
\<close>

record report =
  HIGH_SG :: real
  LOW_SG :: real
  HIGH_PL :: real
  LOW_PL :: real

definition compile_exp :: "rline list list \<Rightarrow> real option \<Rightarrow> error + (report \<times> real option)" where
  "compile_exp red_files surp0 =
     (case read_files red_files ([], surp0) of
        Inl e \<Rightarrow> Inl e
      | Inr (es, s) \<Rightarrow>
          (case mean (map high_sg es) of
             Inl e \<Rightarrow> Inl e
           | Inr hsg \<Rightarrow>
               (case mean (map low_sg es) of
                  Inl e \<Rightarrow> Inl e
                | Inr lsg \<Rightarrow>
                    (case mean (map high_pl es) of
                       Inl e \<Rightarrow> Inl e
                     | Inr hpl \<Rightarrow>
                         (case mean (map low_pl es) of
                            Inl e \<Rightarrow> Inl e
                          | Inr lpl \<Rightarrow>
                              Inr (\<lparr>HIGH_SG = hsg, LOW_SG = lsg, HIGH_PL = hpl, LOW_PL = lpl\<rparr>,
                                   s))))))"

text \<open>
  The reading of the specification: the surprisal of the final word of every sentence is
  the surprisal of the last row that carries the sentence's id.
\<close>

fun final_surps :: "rline list \<Rightarrow> real list" where
  "final_surps [] = []"
| "final_surps [l] = [line_surp l]"
| "final_surps (l # l' # rest) =
     (if line_sentid l = line_sentid l' then final_surps (l' # rest)
      else line_surp l # final_surps (l' # rest))"

section \<open>The test run\<close>

text \<open>
  What the test part of the script changes: the state of the evaluation, the arguments
  (\<open>test_evaluate\<close> assigns to \<open>args.complexn\<close>), and the file of the adapted model.
\<close>

record prog =
  prog_tstate :: tstate
  prog_args :: args
  adapted_model :: "param list option"

definition rule89 :: string where
  "rule89 = replicate 89 (CHR ''='')"

text \<open>
  The run on the test data, without \<open>interact\<close>: an exception of \<open>test_evaluate\<close>
  is not caught and ends the script. Otherwise the model is saved when it was adapted and,
  unless \<open>nopp\<close> is set, the loss and the perplexity \<open>math.exp(test_loss)\<close> are
  reported. With \<open>multisentence_test\<close> the call passes \<open>None\<close> for the sentences.
\<close>

definition run_test ::
  "corpus \<Rightarrow> fmt \<Rightarrow> 'h env \<Rightarrow> string list \<Rightarrow> nat list list \<Rightarrow> prog \<Rightarrow> prog \<times> error option" where
  "run_test c f env test_sents test_data p =
     (case test_evaluate (prog_args p) c f env
             (if multisentence_test (prog_args p) then [] else test_sents) test_data
             (prog_tstate p) of
        (st, a', Inl e) \<Rightarrow> (p\<lparr>prog_tstate := st, prog_args := a'\<rparr>, Some e)
      | (st, a', Inr test_loss) \<Rightarrow>
          (let p1 = p\<lparr>prog_tstate := st, prog_args := a',
                      adapted_model :=
                        (if adapt a' then Some (model_params st) else adapted_model p)\<rparr>
           in if nopp a' then (p1, None)
              else
                (let st1 = st\<lparr>stdout := stdout st @ [rule89]\<rparr>
                 in case math_exp test_loss of
                      Inl e \<Rightarrow> (p1\<lparr>prog_tstate := st1\<rparr>, Some e)
                    | Inr ppl \<Rightarrow>
                        (p1\<lparr>prog_tstate :=
                              st1\<lparr>stdout := stdout st1 @
                                    [''| End of testing | test loss '' @ fmt52 f test_loss @
                                     '' | test ppl '' @ fmt82 f ppl, rule89]\<rparr>\<rparr>,
                         None))))"

text \<open>
  The interactive run. Every sentence typed in is evaluated inside a \<open>try\<close> whose
  \<open>except\<close> catches every exception, prints two messages (three lines) and lets the
  loop go on; the model is saved after every sentence when \<open>adapt\<close> is set. The
  sentences come tokenised, as \<open>corpus.online_tokenize_with_unks\<close> returns them, and the
  session ends with an interrupt at the prompt. The loop starts at \<open>while True\<close>, after
  the lines about the size of the model have been printed.
\<close>

definition interact_prompt :: string where
  "interact_prompt = ''Input a sentence: ''"

definition interact_message :: "string list" where
  "interact_message =
     [''RuntimeError: Most likely one of the input words was out-of-vocabulary.'',
      ''    Retrain the model with'' @ replicate 28 (CHR '' '') @
        ''A) explicit '<unk>'s in the training set'',
      replicate 32 (CHR '' '') @ ''or B) words in validation that aren't present in training.'']"

definition interact_body ::
  "corpus \<Rightarrow> fmt \<Rightarrow> 'h env \<Rightarrow> string list \<times> nat list list \<Rightarrow> prog \<Rightarrow> prog" where
  "interact_body c f env inp p =
     (case test_evaluate (prog_args p) c f env (fst inp) (snd inp) (prog_tstate p) of
        (st, a', r) \<Rightarrow>
          (let st' = (case r of
                        Inl e \<Rightarrow> st\<lparr>stdout := stdout st @ interact_message\<rparr>
                      | Inr test_loss \<Rightarrow> st)
           in p\<lparr>prog_tstate := st', prog_args := a',
                adapted_model :=
                  (if adapt a' then Some (model_params st') else adapted_model p)\<rparr>))"

definition prompted :: "prog \<Rightarrow> prog" where
  "prompted p = p\<lparr>prog_tstate := (prog_tstate p)\<lparr>stdout := stdout (prog_tstate p) @
                   [interact_prompt]\<rparr>\<rparr>"

fun interact_loop ::
  "corpus \<Rightarrow> fmt \<Rightarrow> 'h env \<Rightarrow> (string list \<times> nat list list) list \<Rightarrow> prog \<Rightarrow> prog" where
  "interact_loop c f env [] p =
     p\<lparr>prog_tstate := (prog_tstate p)\<lparr>stdout := stdout (prog_tstate p) @
          [interact_prompt, '' '']\<rparr>\<rparr>"
| "interact_loop c f env (inp # rest) p =
     interact_loop c f env rest (interact_body c f env inp (prompted p))"

text \<open>
  The hidden state that the loop over the words of a sentence has reached after the words
  \<open>ws\<close>, for the parameter values \<open>ps\<close>.
\<close>

fun hidden_after :: "'h env \<Rightarrow> real list \<Rightarrow> nat list \<Rightarrow> 'h \<Rightarrow> 'h" where
  "hidden_after env ps [] h = h"
| "hidden_after env ps (w # ws) h = hidden_after env ps ws (snd (model_call env ps [w] h))"

section \<open>Example inputs\<close>

definition demo_args :: args where
  "demo_args = \<lparr>complexn = 2, softcliptopk = False, guess = False, guessn = 1,
     guessscores = False, guessratios = False, guessprobs = False, csep = '' '',
     words = True, nocheader = False, adapt = False, clip = 1 / 4, view_layer = - 1,
     view_hidden = False, lr = 20, multisentence_test = False, nopp = False\<rparr>"

definition demo_corpus :: corpus where
  "demo_corpus = \<lparr>idx2word = [''the'', ''<eos>'']\<rparr>"

definition demo_fmt :: fmt where
  "demo_fmt = \<lparr>str_float = (\<lambda>x. ''f''), fmt3 = (\<lambda>x. ''g''), fmt52 = (\<lambda>x. ''l''),
     fmt82 = (\<lambda>x. ''p'')\<rparr>"

text \<open>
  Scores of four positions over the two-word vocabulary: the distributions
  \<open>(1/4, 3/4)\<close>, uniform, \<open>(1/4, 3/4)\<close>, uniform. The observed words are three times
  \<open>the\<close> and then \<open><eos>\<close>.
\<close>

definition demo_state :: "real list list" where
  "demo_state = [[0, ln 3], [0, 0], [0, ln 3], [0, 0]]"

definition demo_obs :: "nat list" where
  "demo_obs = [0, 0, 0, 1]"

definition demo_H0 :: real where
  "demo_H0 = (ln 4 - 3 / 4 * ln 3) / ln 2"

definition demo_row0 :: crow where
  "demo_row0 = \<lparr>row_word = ''the'', row_sentid = 7, row_sentpos = 0, row_wlen = 3,
     row_surp = Flt 2, row_entropy = Flt demo_H0, row_entred = PyInt 0, row_guesses = None\<rparr>"

definition demo_row1 :: crow where
  "demo_row1 = \<lparr>row_word = ''the'', row_sentid = 7, row_sentpos = 1, row_wlen = 3,
     row_surp = Flt 1, row_entropy = Flt 1, row_entred = PyInt 0, row_guesses = None\<rparr>"

definition demo_row2 :: crow where
  "demo_row2 = \<lparr>row_word = ''the'', row_sentid = 7, row_sentpos = 2, row_wlen = 3,
     row_surp = Flt 2, row_entropy = Flt demo_H0, row_entred = PyFloat (Flt (1 - demo_H0)),
     row_guesses = None\<rparr>"

text \<open>
  A stand-in for the network: every position scores both words \<open>0\<close>, the loss is
  \<open>1\<close> and every parameter gets the gradient \<open>1\<close>. The model has one parameter.
\<close>

definition demo_env :: "unit env" where
  "demo_env = \<lparr>model_call = (\<lambda>ps data h. (concat (map (\<lambda>w. [0, 0]) data), h)),
     init_hidden = (), criterion = (\<lambda>rows targets. Inr (Flt 1)),
     loss_grad = (\<lambda>ps data targets j. Some 1), hidden_line = (\<lambda>vh layer h. ''h'')\<rparr>"

definition demo_st :: tstate where
  "demo_st = \<lparr>stdout = [], stderr = [], model_params = [\<lparr>pdata = 1, pgrad = None\<rparr>],
     total_loss = Flt 0, nwords = 0\<rparr>"

definition demo_adapt_args :: args where
  "demo_adapt_args = demo_args\<lparr>words := False, adapt := True\<rparr>"

definition demo_adapted_st :: tstate where
  "demo_adapted_st = demo_st\<lparr>stdout := [''f''], total_loss := Flt 1,
     model_params := adapt_step demo_adapt_args demo_env [0, 0] [0, 1] (model_params demo_st)\<rparr>"

text \<open>
  A network whose output has three entries, which do not divide into rows of two, and the
  arguments with \<open>view_layer\<close> set.
\<close>

definition demo_bad_env :: "unit env" where
  "demo_bad_env = demo_env\<lparr>model_call := (\<lambda>ps data h. ([0, 0, 0], h))\<rparr>"

definition demo_view_args :: args where
  "demo_view_args = demo_args\<lparr>view_layer := 0\<rparr>"

text \<open>
  A network whose output for a sentence of two input words has four entries and for any
  other sentence three, and a run that prints sentence losses.
\<close>

definition demo_mixed_env :: "unit env" where
  "demo_mixed_env =
     demo_env\<lparr>model_call := (\<lambda>ps data h. (if length data = 2 then [0, 0, 0, 0] else [0, 0, 0], h))\<rparr>"

definition demo_loss_args :: args where
  "demo_loss_args = demo_args\<lparr>words := False\<rparr>"

definition demo_started_st :: tstate where
  "demo_started_st = demo_st\<lparr>stderr := [''Using beamsize: 2'']\<rparr>"

definition demo_first_done_st :: tstate where
  "demo_first_done_st = demo_started_st\<lparr>stdout := [''f''], total_loss := Flt 1\<rparr>"


text \<open>Guessing switched on with one guess and no scores.\<close>

definition demo_guess_args :: args where
  "demo_guess_args = demo_args\<lparr>guess := True\<rparr>"


definition demo_gboth_args :: args where
  "demo_gboth_args = demo_args\<lparr>guess := True, guessratios := True, guessprobs := True\<rparr>"

text \<open>
  Validation losses of nine epochs: improvements in epochs 1, 2 and 5, and from epoch 6 on
  none.
\<close>

definition demo_losses :: "real list" where
  "demo_losses = [3, 2, 4, 5, 1, 6, 7, 8, 9]"

definition demo_trace :: "train_state list" where
  "demo_trace = fst (epoch_trace 1 demo_losses (train_start 20))"

text \<open>
  A result file with one item: four sentences of two words each, whose final words have
  the surprisals 1, 2, 3 and 4.
\<close>

definition demo_file :: "rline list" where
  "demo_file =
     [\<lparr>line_sentid = 0, line_surp = 9\<rparr>, \<lparr>line_sentid = 0, line_surp = 1\<rparr>,
      \<lparr>line_sentid = 1, line_surp = 9\<rparr>, \<lparr>line_sentid = 1, line_surp = 2\<rparr>,
      \<lparr>line_sentid = 2, line_surp = 9\<rparr>, \<lparr>line_sentid = 2, line_surp = 3\<rparr>,
      \<lparr>line_sentid = 3, line_surp = 9\<rparr>, \<lparr>line_sentid = 3, line_surp = 4\<rparr>]"


text \<open>
  Scores of a sentence with two positions; at the first the word with index \<open>0\<close> is a
  hundred below the other word.
\<close>

definition demo_far_state :: "real list list" where
  "demo_far_state = [[0, 100], [0, 0]]"
section \<open>Overflow of the exponential\<close>

lemma float32_max_pos: "0 < float32_max"
  by (simp add: float32_max_def)

lemma float64_max_pos: "0 < float64_max"
  by (simp add: float64_max_def)

lemma exp_le_float64_max: "x \<le> 600 \<Longrightarrow> exp x \<le> float64_max"
proof -
  assume "x \<le> 600"
  then have "exp x \<le> exp (of_nat 600 * (1::real))" by simp
  also have "\<dots> = exp 1 ^ 600" by (rule exp_of_nat_mult)
  also have "\<dots> \<le> (3::real) ^ 600" by (rule power_mono) (simp_all add: exp_le)
  also have "\<dots> \<le> float64_max" by (simp add: float64_max_def)
  finally show ?thesis .
qed

lemma math_exp_ok: "x \<le> 600 \<Longrightarrow> math_exp (Flt x) = Inr (Flt (exp x))"
  using exp_le_float64_max[of x] by simp

lemma exp_le_float32_max: "x \<le> 80 \<Longrightarrow> exp x \<le> float32_max"
proof -
  assume "x \<le> 80"
  then have "exp x \<le> exp (of_nat 80 * (1::real))" by simp
  also have "\<dots> = exp 1 ^ 80" by (rule exp_of_nat_mult)
  also have "\<dots> \<le> (3::real) ^ 80" by (rule power_mono) (simp_all add: exp_le)
  also have "\<dots> \<le> float32_max" by (simp add: float32_max_def)
  finally show ?thesis .
qed

text \<open>The conversion from nats to bits, as long as the exponential is a float.\<close>

lemma bits_of_nats:
  "exp h \<le> float32_max \<Longrightarrow> fl_log2 (torch_exp (Flt h)) = Flt (h / ln 2)"
  by (simp add: log_def)

lemma bits_of_nats_overflow:
  "float32_max < exp h \<Longrightarrow> fl_log2 (torch_exp (Flt h)) = PosInf"
  by simp

section \<open>Top-k selection and scattering\<close>

lemma topk_props:
  assumes "topk state k = Inr (vals, ix)"
  shows "0 \<le> k" "k \<le> int (length state)" "length ix = nat k" "distinct ix"
    "set ix \<subseteq> {..<length state}" "vals = map (\<lambda>i. state ! i) ix"
    "\<forall>i\<in>set ix. \<forall>j<length state. j \<notin> set ix \<longrightarrow> state ! j \<le> state ! i"
proof -
  let ?s = "sort_key (\<lambda>i. - (state ! i)) [0..<length state]"
  from assms have k: "0 \<le> k" "k \<le> int (length state)"
    and ix: "ix = take (nat k) ?s" and vals: "vals = map (\<lambda>i. state ! i) ix"
    by (auto simp: topk_def Let_def split: if_splits)
  show "0 \<le> k" "k \<le> int (length state)" "vals = map (\<lambda>i. state ! i) ix"
    using k vals by auto
  show "length ix = nat k" using k by (simp add: ix)
  show "distinct ix" by (simp add: ix)
  have "set ix \<subseteq> set ?s" unfolding ix by (rule set_take_subset)
  then show "set ix \<subseteq> {..<length state}" by auto
  have srt: "sorted (map (\<lambda>i. - (state ! i)) (take (nat k) ?s @ drop (nat k) ?s))"
    by simp
  show "\<forall>i\<in>set ix. \<forall>j<length state. j \<notin> set ix \<longrightarrow> state ! j \<le> state ! i"
  proof (intro ballI allI impI)
    fix i j assume i: "i \<in> set ix" and j: "j < length state" and nj: "j \<notin> set ix"
    have "j \<in> set ?s" using j by simp
    then have "j \<in> set (take (nat k) ?s) \<union> set (drop (nat k) ?s)"
      by (metis append_take_drop_id set_append)
    with nj have jd: "j \<in> set (drop (nat k) ?s)" by (simp add: ix)
    from srt have "\<forall>x\<in>set (map (\<lambda>i. - (state ! i)) (take (nat k) ?s)).
        \<forall>y\<in>set (map (\<lambda>i. - (state ! i)) (drop (nat k) ?s)). x \<le> y"
      unfolding map_append sorted_append by blast
    with i jd have "- (state ! i) \<le> - (state ! j)" by (auto simp: ix)
    then show "state ! j \<le> state ! i" by simp
  qed
qed

lemma topk_full:
  assumes "topk state (int (length state)) = Inr (vals, ix)"
  shows "set ix = {..<length state}"
proof -
  from assms have "ix = take (length state) (sort_key (\<lambda>i. - (state ! i)) [0..<length state])"
    by (auto simp: topk_def Let_def split: if_splits)
  then have "ix = sort_key (\<lambda>i. - (state ! i)) [0..<length state]" by simp
  then show ?thesis by auto
qed

lemma topk_ok: "0 \<le> k \<Longrightarrow> k \<le> int (length state) \<Longrightarrow> \<exists>vals ix. topk state k = Inr (vals, ix)"
  by (simp add: topk_def Let_def)

lemma length_scatter: "length (scatter base ix vals) = length base"
proof -
  have "length (fold (\<lambda>(i, v) b. b[i := Flt v]) ps base) = length base" for ps
    by (induction ps arbitrary: base) (auto split: prod.splits)
  then show ?thesis by (simp add: scatter_def)
qed

lemma nth_scatter:
  "i < length base \<Longrightarrow>
   scatter base ix (map g ix) ! i = (if i \<in> set ix then Flt (g i) else base ! i)"
proof (induction ix arbitrary: base rule: rev_induct)
  case Nil
  then show ?case by (simp add: scatter_def)
next
  case (snoc j ix)
  have len: "length (scatter base ix (map g ix)) = length base" by (rule length_scatter)
  have "scatter base (ix @ [j]) (map g (ix @ [j])) = (scatter base ix (map g ix))[j := Flt (g j)]"
    by (simp add: scatter_def)
  then have eq: "scatter base (ix @ [j]) (map g (ix @ [j])) ! i =
      (scatter base ix (map g ix))[j := Flt (g j)] ! i" by simp
  show ?case
  proof (cases "i = j")
    case True
    with eq snoc.prems len show ?thesis by simp
  next
    case False
    with eq snoc.IH[OF snoc.prems] show ?thesis by simp
  qed
qed

lemma scatter_eq:
  "scatter base ix (map g ix) =
     map (\<lambda>i. if i \<in> set ix then Flt (g i) else base ! i) [0..<length base]"
  by (rule nth_equalityI) (simp_all add: length_scatter nth_scatter)

section \<open>Softmax over a masked score vector\<close>

lemma fl_sum_Flt: "fl_sum (map Flt rs) = Flt (sum_list rs)"
  by (induction rs) (simp_all add: fl_sum_def)

lemma fl_sum_map_Flt: "fl_sum (map (\<lambda>i. Flt (g i)) is) = Flt (sum_list (map g is))"
  using fl_sum_Flt[of "map g is"] by (simp add: comp_def)

lemma sum_list_upt_if:
  "S \<subseteq> {..<n} \<Longrightarrow> sum_list (map (\<lambda>i. if i \<in> S then g i else 0) [0..<n]) = (\<Sum>i\<in>S. g i)"
proof -
  assume S: "S \<subseteq> {..<n}"
  have "sum_list (map (\<lambda>i. if i \<in> S then g i else 0) [0..<n]) = (\<Sum>i\<in>{..<n}. if i \<in> S then g i else 0)"
    by (simp add: sum_list_distinct_conv_sum_set atLeast0LessThan)
  also have "\<dots> = (\<Sum>i\<in>{..<n} \<inter> S. g i)"
    by (simp add: sum.inter_restrict)
  also have "{..<n} \<inter> S = S" using S by auto
  finally show ?thesis .
qed

lemma expsum_beam_on:
  assumes "S \<subseteq> {..<length state}"
  shows "fl_sum (map fl_exp (beam_on state S)) = Flt (\<Sum>i\<in>S. exp (state ! i))"
proof -
  have "map fl_exp (beam_on state S) =
      map (\<lambda>i. Flt (if i \<in> S then exp (state ! i) else 0)) [0..<length state]"
    by (simp add: beam_on_def)
  then show ?thesis
    using sum_list_upt_if[OF assms, of "\<lambda>i. exp (state ! i)"] by (simp add: fl_sum_map_Flt)
qed

lemma expsum_pos:
  assumes "finite S" "S \<noteq> {}"
  shows "0 < (\<Sum>i\<in>S. exp ((state :: real list) ! i))"
  using assms by (intro sum_pos) auto

lemma softmax_beam_on:
  assumes S: "S \<subseteq> {..<length state}" and ne: "S \<noteq> {}"
  shows "softmax (beam_on state S) =
    map (\<lambda>i. Flt (if i \<in> S then exp (state ! i) / (\<Sum>j\<in>S. exp (state ! j)) else 0))
      [0..<length state]"
proof -
  have fin: "finite S" using S by (rule finite_subset) simp
  have z: "(\<Sum>j\<in>S. exp (state ! j)) \<noteq> 0" using expsum_pos[OF fin ne, of state] by simp
  show ?thesis
    unfolding softmax_def expsum_beam_on[OF S] Let_def
    using z by (simp add: beam_on_def)
qed

lemma log_softmax_beam_on:
  assumes S: "S \<subseteq> {..<length state}" and ne: "S \<noteq> {}"
  shows "log_softmax (beam_on state S) =
    map (\<lambda>i. if i \<in> S then Flt (state ! i - ln (\<Sum>j\<in>S. exp (state ! j))) else NegInf)
      [0..<length state]"
proof -
  have fin: "finite S" using S by (rule finite_subset) simp
  have z: "0 < (\<Sum>j\<in>S. exp (state ! j))" using expsum_pos[OF fin ne, of state] .
  show ?thesis
    unfolding log_softmax_def expsum_beam_on[OF S] Let_def
    using z by (simp add: beam_on_def fl_sub_def)
qed

section \<open>Entropy and surprisal of a masked score vector\<close>

lemma filter_not_nan:
  "filter (\<lambda>p. fl_eq p p) (map (\<lambda>i. if i \<in> S then Flt (g i) else NaN) is) =
     map (\<lambda>i. Flt (g i)) (filter (\<lambda>i. i \<in> S) is)"
  by (induction "is") simp_all

lemma entropy_sum_beam_on:
  assumes S: "S \<subseteq> {..<length state}" and ne: "S \<noteq> {}"
  shows "fl_sum (filter (\<lambda>p. fl_eq p p)
           (map2 fl_mul (softmax (beam_on state S)) (log_softmax (beam_on state S)))) =
         Flt (\<Sum>i\<in>S. exp (state ! i) / (\<Sum>j\<in>S. exp (state ! j)) *
                      (state ! i - ln (\<Sum>j\<in>S. exp (state ! j))))"
proof -
  let ?Z = "\<Sum>j\<in>S. exp (state ! j)"
  let ?g = "\<lambda>i. exp (state ! i) / ?Z * (state ! i - ln ?Z)"
  have "map2 fl_mul (softmax (beam_on state S)) (log_softmax (beam_on state S)) =
      map (\<lambda>i. if i \<in> S then Flt (?g i) else NaN) [0..<length state]"
    unfolding softmax_beam_on[OF S ne] log_softmax_beam_on[OF S ne] map2_map_map
    by (rule map_cong) auto
  then have "fl_sum (filter (\<lambda>p. fl_eq p p)
           (map2 fl_mul (softmax (beam_on state S)) (log_softmax (beam_on state S)))) =
      Flt (sum_list (map ?g (filter (\<lambda>i. i \<in> S) [0..<length state])))"
    by (simp only: filter_not_nan fl_sum_map_Flt)
  also have "sum_list (map ?g (filter (\<lambda>i. i \<in> S) [0..<length state])) = (\<Sum>i\<in>S. ?g i)"
    unfolding sum_list_map_filter' by (rule sum_list_upt_if[OF S])
  finally show ?thesis .
qed

lemma ln_softmax_on:
  assumes fin: "finite S" and ne: "S \<noteq> {}"
  shows "ln (exp (x :: real) / (\<Sum>j\<in>S. exp ((state :: real list) ! j))) =
     x - ln (\<Sum>j\<in>S. exp (state ! j))"
  using expsum_pos[OF fin ne, of state] by (simp add: ln_div)

lemma renorm_softmax:
  assumes S: "S \<subseteq> {..<length state}" and ne: "S \<noteq> {}" and i: "i \<in> S"
  shows "renorm (softmax_prob state) S i = exp (state ! i) / (\<Sum>j\<in>S. exp (state ! j))"
proof -
  let ?Z = "\<Sum>j<length state. exp (state ! j)"
  have fin: "finite S" using S by (rule finite_subset) simp
  have "{..<length state} \<noteq> {}" using S ne by auto
  then have Z: "0 < ?Z" by (intro sum_pos) auto
  have ZS: "0 < (\<Sum>j\<in>S. exp (state ! j))" by (rule expsum_pos[OF fin ne])
  have "(\<Sum>j\<in>S. softmax_prob state j) = (\<Sum>j\<in>S. exp (state ! j)) / ?Z"
    by (simp add: softmax_prob_def sum_divide_distrib)
  then show ?thesis using Z ZS i by (simp add: renorm_def softmax_prob_def)
qed

lemma renorm_full:
  assumes "i < length state"
  shows "renorm (softmax_prob state) {..<length state} i = softmax_prob state i"
proof -
  have "{..<length state} \<noteq> {}" using assms by auto
  from renorm_softmax[OF subset_refl this, of i] assms show ?thesis
    by (simp add: softmax_prob_def)
qed

lemma get_entropy_beam_on:
  assumes b: "beam a state = Inr (beam_on state S)"
    and S: "S \<subseteq> {..<length state}" and ne: "S \<noteq> {}"
  shows "get_entropy a state = Inr (Flt (entropy_nats (renorm (softmax_prob state) S) S))"
proof -
  have fin: "finite S" using S by (rule finite_subset) simp
  let ?Z = "\<Sum>j\<in>S. exp (state ! j)"
  have "entropy_nats (renorm (softmax_prob state) S) S =
      - (\<Sum>i\<in>S. exp (state ! i) / ?Z * (state ! i - ln ?Z))"
    unfolding entropy_nats_def
    by (simp add: renorm_softmax[OF S ne] ln_softmax_on[OF fin ne] cong: sum.cong)
  then show ?thesis
    unfolding get_entropy_def b by (simp add: Let_def entropy_sum_beam_on[OF S ne])
qed

lemma get_surps_beam_on:
  assumes b: "beam a state = Inr (beam_on state S)"
    and S: "S \<subseteq> {..<length state}" and ne: "S \<noteq> {}"
  shows "get_surps a state =
    Inr (map (\<lambda>i. if i \<in> S then Flt (- ln (renorm (softmax_prob state) S i)) else PosInf)
           [0..<length state])"
proof -
  have fin: "finite S" using S by (rule finite_subset) simp
  show ?thesis
    unfolding get_surps_def b
    by (simp add: log_softmax_beam_on[OF S ne] renorm_softmax[OF S ne] ln_softmax_on[OF fin ne])
qed

section \<open>The beam and the rows of the complexity output\<close>

lemma beam_on_full: "beam_on state {..<length state} = map Flt state"
  by (rule nth_equalityI) (simp_all add: beam_on_def)

lemma beam_topk:
  assumes k: "complexn a \<noteq> 0" and tk: "topk state (complexn a) = Inr (vals, ix)"
    and sc: "\<not> softcliptopk a"
  shows "beam a state = Inr (beam_on state (set ix))"
proof -
  have vals: "vals = map (\<lambda>i. state ! i) ix" by (rule topk_props(6)[OF tk])
  have "scatter (replicate (length state) NegInf) ix vals = beam_on state (set ix)"
    unfolding vals scatter_eq beam_on_def by (rule map_cong) auto
  then show ?thesis using k tk sc by (simp add: beam_def)
qed

lemma beam_full:
  assumes "complexn a = int (length state)"
  shows "beam a state = Inr (map Flt state)"
proof (cases "complexn a = 0")
  case True
  then show ?thesis by (simp add: beam_def)
next
  case False
  obtain vals ix where tk: "topk state (complexn a) = Inr (vals, ix)"
    using topk_ok[of "complexn a" state] assms by auto
  have vals: "vals = map (\<lambda>i. state ! i) ix" by (rule topk_props(6)[OF tk])
  have full: "set ix = {..<length state}" using topk_full tk assms by simp
  have "scatter (replicate (length state) v) ix vals = map Flt state" for v
    unfolding vals scatter_eq by (rule nth_equalityI) (simp_all add: full)
  then show ?thesis using False tk by (simp add: beam_def)
qed

lemma map_err_Inr:
  "map_err f xs = Inr ys \<Longrightarrow> length ys = length xs \<and> (\<forall>i<length xs. f (xs ! i) = Inr (ys ! i))"
proof (induction xs arbitrary: ys)
  case Nil
  then show ?case by simp
next
  case (Cons x xs)
  from Cons.prems obtain y ys' where y: "f x = Inr y" and ys': "map_err f xs = Inr ys'"
    and ys: "ys = y # ys'"
    by (auto split: sum.splits)
  from Cons.IH[OF ys'] y ys show ?case by (auto simp: nth_Cons')
qed

lemma apply_rows_Inr:
  "apply_rows f xs = Inr ys \<Longrightarrow> length ys = length xs \<and> (\<forall>i<length xs. f (xs ! i) = Inr (ys ! i))"
  unfolding apply_rows_def using map_err_Inr[of f xs]
  by (auto split: sum.splits if_splits)

lemma tensor_nth_Inr:
  "tensor_nth Hs i = Inr h \<Longrightarrow> \<exists>xs. Hs = Vector xs \<and> i < length xs \<and> xs ! i = h"
  by (cases Hs) (auto simp: nth_err_def split: if_splits)

lemma complexity_Hs_Vector:
  assumes "complexity_Hs a state = Inr (Vector xs)" "pos < length xs"
  shows "pos < length state \<and>
    (\<exists>h. get_entropy a (state ! pos) = Inr h \<and> xs ! pos = fl_log2 (torch_exp h))"
proof -
  from assms(1) obtain hs where hs: "apply_rows (get_entropy a) state = Inr hs"
    and Hs: "Vector xs = tensor_map fl_log2 (tensor_map torch_exp (squeeze hs))"
    by (auto simp: complexity_Hs_def split: sum.splits)
  from Hs have xs: "xs = map (\<lambda>h. fl_log2 (torch_exp h)) hs"
    by (auto simp: squeeze_def split: if_splits)
  from apply_rows_Inr[OF hs] assms(2) xs show ?thesis by auto
qed

text \<open>
  With a single position the squeezed entropies have no dimension, and no row is printed
  for a word other than \<open><eos>\<close>.
\<close>

lemma complexity_Hs_single:
  "complexity_Hs a [row] = Inr Hs \<Longrightarrow> \<exists>h. Hs = Scalar h"
  by (auto simp: complexity_Hs_def apply_rows_def squeeze_def split: sum.splits if_splits)

lemma complexity_surps_nth:
  assumes "complexity_surps a state = Inr surps" "pos < length surps"
  shows "pos < length state \<and>
    (\<exists>s. get_surps a (state ! pos) = Inr s \<and> surps ! pos = map (\<lambda>x. fl_log2 (torch_exp x)) s)"
proof -
  from assms(1) obtain ss where ss: "apply_rows (get_surps a) state = Inr ss"
    and surps: "surps = map (map (\<lambda>s. fl_log2 (torch_exp s))) ss"
    by (auto simp: complexity_surps_def split: sum.splits)
  from apply_rows_Inr[OF ss] assms(2) surps show ?thesis by auto
qed

lemma complexity_row_SomeD:
  assumes "complexity_row a c f Hs surps guesses gscores sentid pos targ = Inr (Some r)"
  shows "row_sentpos r = pos" "row_sentid r = sentid"
    "nth_err (idx2word c) targ = Inr (row_word r)" "row_word r \<noteq> ''<eos>''"
    "row_wlen r = length (row_word r)"
    "\<exists>srow. nth_err surps pos = Inr srow \<and> nth_err srow targ = Inr (row_surp r)"
    "tensor_nth Hs pos = Inr (row_entropy r)"
    "entred_at Hs pos = Inr (row_entred r)"
    "guess a \<longleftrightarrow> row_guesses r \<noteq> None"
  using assms unfolding complexity_row_def
  by (auto split: sum.splits if_splits)

lemma complexity_loop_rowD:
  "r \<in> set (fst (complexity_loop a c f Hs surps guesses gscores sentid pts)) \<Longrightarrow>
   \<exists>pos targ. (pos, targ) \<in> set pts \<and>
     complexity_row a c f Hs surps guesses gscores sentid pos targ = Inr (Some r)"
proof (induction pts)
  case Nil
  then show ?case by simp
next
  case (Cons pt pts)
  obtain pos targ where pt: "pt = (pos, targ)" by (cases pt)
  show ?case
  proof (cases "complexity_row a c f Hs surps guesses gscores sentid pos targ")
    case (Inl e)
    with Cons.prems pt show ?thesis by simp
  next
    case (Inr ro)
    show ?thesis
    proof (cases ro)
      case None
      with Cons Inr pt show ?thesis by auto
    next
      case (Some r')
      with Cons Inr pt show ?thesis by (auto split: prod.splits)
    qed
  qed
qed

lemma get_complexity_rows_rowD:
  assumes "r \<in> set (fst (get_complexity_rows a c f state obs sentid))"
  shows "\<exists>Hs surps guesses gscores pos.
     complexity_Hs a state = Inr Hs \<and> complexity_surps a state = Inr surps \<and>
     pos < length obs \<and>
     complexity_row a c f Hs surps guesses gscores sentid pos (obs ! pos) = Inr (Some r)"
proof -
  from assms obtain Hs where Hs: "complexity_Hs a state = Inr Hs"
    by (auto simp: get_complexity_rows_def split: sum.splits)
  from assms Hs obtain surps where surps: "complexity_surps a state = Inr surps"
    by (auto simp: get_complexity_rows_def split: sum.splits)
  from assms Hs surps obtain guesses gscores where
    "r \<in> set (fst (complexity_loop a c f Hs surps guesses gscores sentid (zip [0..<length obs] obs)))"
    by (auto simp: get_complexity_rows_def split: sum.splits if_splits)
  from complexity_loop_rowD[OF this] obtain pos targ where
    pt: "(pos, targ) \<in> set (zip [0..<length obs] obs)"
    and row: "complexity_row a c f Hs surps guesses gscores sentid pos targ = Inr (Some r)"
    by blast
  from pt have "pos < length obs \<and> targ = obs ! pos"
    by (auto simp: set_zip)
  with Hs surps row show ?thesis by blast
qed

section \<open>Surprisal and entropy over the full vocabulary\<close>

lemma entropy_bits_nats: "entropy_bits p S = entropy_nats p S / ln 2"
  by (simp add: entropy_bits_def entropy_nats_def log_def sum_divide_distrib)

lemma entropy_nats_renorm_full:
  "entropy_nats (renorm (softmax_prob state) {..<length state}) {..<length state} =
   entropy_nats (softmax_prob state) {..<length state}"
proof -
  have "(\<Sum>i<length state. renorm (softmax_prob state) {..<length state} i *
            ln (renorm (softmax_prob state) {..<length state} i)) =
        (\<Sum>i<length state. softmax_prob state i * ln (softmax_prob state i))"
    by (rule sum.cong) (simp_all add: renorm_full)
  then show ?thesis by (simp add: entropy_nats_def)
qed

lemma get_entropy_full:
  assumes k: "complexn a = int (length state)" and ne: "state \<noteq> []"
  shows "get_entropy a state = Inr (Flt (entropy_nats (softmax_prob state) {..<length state}))"
proof -
  have b: "beam a state = Inr (beam_on state {..<length state})"
    using beam_full[OF k] by (simp add: beam_on_full)
  have "{..<length state} \<noteq> {}" using ne by auto
  from get_entropy_beam_on[OF b subset_refl this] show ?thesis
    by (simp add: entropy_nats_renorm_full)
qed

lemma get_surps_full:
  assumes k: "complexn a = int (length state)" and ne: "state \<noteq> []"
  shows "get_surps a state = Inr (map (\<lambda>i. Flt (- ln (softmax_prob state i))) [0..<length state])"
proof -
  have b: "beam a state = Inr (beam_on state {..<length state})"
    using beam_full[OF k] by (simp add: beam_on_full)
  have "{..<length state} \<noteq> {}" using ne by auto
  from get_surps_beam_on[OF b subset_refl this] show ?thesis
    by (simp add: renorm_full)
qed

lemma softmax_prob_pos: "xs \<noteq> [] \<Longrightarrow> 0 < softmax_prob xs i"
proof -
  assume "xs \<noteq> []"
  then have "{..<length xs} \<noteq> {}" by auto
  then have "0 < (\<Sum>j<length xs. exp (xs ! j))" by (intro sum_pos) auto
  then show ?thesis by (simp add: softmax_prob_def)
qed

lemma softmax_prob_sum: "xs \<noteq> [] \<Longrightarrow> (\<Sum>i<length xs. softmax_prob xs i) = 1"
proof -
  assume "xs \<noteq> []"
  then have "{..<length xs} \<noteq> {}" by auto
  then have "0 < (\<Sum>j<length xs. exp (xs ! j))" by (intro sum_pos) auto
  then show ?thesis by (simp add: softmax_prob_def sum_divide_distrib[symmetric])
qed

text \<open>
  The entropy of a distribution over \<open>n\<close> classes is at most \<open>ln n\<close>, so its exponential
  is at most \<open>n\<close>: the conversion of an entropy to bits cannot overflow for a vocabulary
  of fewer words than the largest float.
\<close>

lemma entropy_nats_le_ln_card:
  assumes fin: "finite S" and ne: "S \<noteq> {}" and pos: "\<And>i. i \<in> S \<Longrightarrow> 0 < p i"
    and one: "(\<Sum>i\<in>S. p i) = 1"
  shows "entropy_nats p S \<le> ln (real (card S))"
proof -
  let ?n = "real (card S)"
  have n: "0 < ?n" using fin ne by (simp add: card_gt_0_iff)
  have tm: "p i * (- ln (p i) - ln ?n) \<le> 1 / ?n - p i" if "i \<in> S" for i
  proof -
    have pi: "0 < p i" using that by (rule pos)
    have "- ln (p i) - ln ?n = ln (1 / (p i * ?n))"
      using pi n by (simp add: ln_div ln_mult)
    also have "\<dots> \<le> 1 / (p i * ?n) - 1"
      using pi n by (intro ln_le_minus_one) simp
    finally have "p i * (- ln (p i) - ln ?n) \<le> p i * (1 / (p i * ?n) - 1)"
      using pi by (intro mult_left_mono) simp_all
    also have "\<dots> = 1 / ?n - p i" using pi n by (simp add: field_simps)
    finally show ?thesis .
  qed
  have "entropy_nats p S - ln ?n = (\<Sum>i\<in>S. p i * (- ln (p i) - ln ?n))"
    by (simp add: entropy_nats_def right_diff_distrib sum_subtractf sum_negf
        sum_distrib_right[symmetric] one)
  also have "\<dots> \<le> (\<Sum>i\<in>S. 1 / ?n - p i)" by (intro sum_mono tm)
  also have "\<dots> = 0" using n one by (simp add: sum_subtractf)
  finally show ?thesis by simp
qed

lemma exp_entropy_le_vocabulary:
  assumes "state \<noteq> []"
  shows "exp (entropy_nats (softmax_prob state) {..<length state}) \<le> real (length state)"
proof -
  have ne: "{..<length state} \<noteq> {}" using assms by auto
  have "entropy_nats (softmax_prob state) {..<length state} \<le> ln (real (card {..<length state}))"
    by (rule entropy_nats_le_ln_card[OF _ ne]) (simp_all add: softmax_prob_pos assms softmax_prob_sum)
  then have "exp (entropy_nats (softmax_prob state) {..<length state}) \<le>
      exp (ln (real (length state)))" by simp
  also have "\<dots> = real (length state)" using assms by simp
  finally show ?thesis .
qed

text \<open>
  C3. With \<open>complexn\<close> equal to the vocabulary size, the entropy field of every printed
  row is the Shannon entropy in bits of the softmax distribution, over the whole
  vocabulary, of the scores at the row's position. The vocabulary has at most as many
  words as the largest 32-bit float, about \<open>3.4e38\<close>, which every vocabulary that can be
  held in memory has.
\<close>

theorem entropy_field_is_shannon_entropy:
  assumes r: "r \<in> set (fst (get_complexity_rows a c f state obs sentid))"
    and k: "complexn a = int (ntokens_of c)"
    and len: "\<forall>row\<in>set state. length row = ntokens_of c"
    and V32: "real (ntokens_of c) \<le> float32_max"
  shows "row_entropy r =
    Flt (entropy_bits (softmax_prob (state ! row_sentpos r)) {..<ntokens_of c})"
proof -
  from get_complexity_rows_rowD[OF r] obtain T surps guesses gscores pos where
    T: "complexity_Hs a state = Inr T"
    and row: "complexity_row a c f T surps guesses gscores sentid pos (obs ! pos) = Inr (Some r)"
    by blast
  have pos: "row_sentpos r = pos" by (rule complexity_row_SomeD(1)[OF row])
  from tensor_nth_Inr[OF complexity_row_SomeD(7)[OF row]] obtain Hs where
    Hs: "T = Vector Hs" and posH: "pos < length Hs" and h: "Hs ! pos = row_entropy r" by blast
  from complexity_row_SomeD(3)[OF row] have V: "0 < ntokens_of c"
    by (auto simp: nth_err_def ntokens_of_def split: if_splits)
  from complexity_Hs_Vector[OF T[unfolded Hs] posH] obtain h0 where ps: "pos < length state"
    and ge: "get_entropy a (state ! pos) = Inr h0" and hp: "Hs ! pos = fl_log2 (torch_exp h0)"
    by blast
  have l: "length (state ! pos) = ntokens_of c" using len ps by simp
  have ne: "state ! pos \<noteq> []" using l V by auto
  have "get_entropy a (state ! pos) =
      Inr (Flt (entropy_nats (softmax_prob (state ! pos)) {..<length (state ! pos)}))"
    by (rule get_entropy_full) (use k l V in auto)
  with ge have h0: "h0 = Flt (entropy_nats (softmax_prob (state ! pos)) {..<ntokens_of c})"
    by (simp add: l)
  have "exp (entropy_nats (softmax_prob (state ! pos)) {..<ntokens_of c}) \<le> float32_max"
    using exp_entropy_le_vocabulary[OF ne] V32 by (simp add: l)
  from bits_of_nats[OF this] h hp h0 pos show ?thesis
    by (simp only: entropy_bits_nats)
qed

text \<open>
  The surp field with \<open>complexn\<close> equal to the vocabulary size. The surprisal in nats
  is \<open>-ln p\<close> for the probability \<open>p\<close> that the softmax distribution at the row's
  position gives to the observed next word, and \<open>torch.exp\<close> of it is \<open>1 / p\<close>: the
  field is \<open>-log2 p\<close> as long as \<open>1 / p\<close> is a 32-bit float, and \<open>inf\<close> for a smaller
  probability.
\<close>

lemma surp_field_bits:
  assumes r: "r \<in> set (fst (get_complexity_rows a c f state obs sentid))"
    and k: "complexn a = int (ntokens_of c)"
    and len: "\<forall>row\<in>set state. length row = ntokens_of c"
  shows "row_surp r =
    (if float32_max < 1 / softmax_prob (state ! row_sentpos r) (obs ! row_sentpos r)
     then PosInf
     else Flt (- log 2 (softmax_prob (state ! row_sentpos r) (obs ! row_sentpos r))))"
proof -
  from get_complexity_rows_rowD[OF r] obtain Hs surps guesses gscores pos where
    surps: "complexity_surps a state = Inr surps"
    and row: "complexity_row a c f Hs surps guesses gscores sentid pos (obs ! pos) = Inr (Some r)"
    by blast
  have pos: "row_sentpos r = pos" by (rule complexity_row_SomeD(1)[OF row])
  from complexity_row_SomeD(6)[OF row] have posS: "pos < length surps"
    and t: "obs ! pos < length (surps ! pos)" and s: "surps ! pos ! (obs ! pos) = row_surp r"
    by (auto simp: nth_err_def split: if_splits)
  from complexity_row_SomeD(3)[OF row] have V: "0 < ntokens_of c"
    by (auto simp: nth_err_def ntokens_of_def split: if_splits)
  from complexity_surps_nth[OF surps posS] obtain s0 where ps: "pos < length state"
    and gs: "get_surps a (state ! pos) = Inr s0"
    and sp: "surps ! pos = map (\<lambda>x. fl_log2 (torch_exp x)) s0"
    by blast
  have l: "length (state ! pos) = ntokens_of c" using len ps by simp
  have ne: "state ! pos \<noteq> []" using l V by auto
  have "get_surps a (state ! pos) =
      Inr (map (\<lambda>i. Flt (- ln (softmax_prob (state ! pos) i))) [0..<length (state ! pos)])"
    by (rule get_surps_full) (use k l V in auto)
  with gs have s0: "s0 = map (\<lambda>i. Flt (- ln (softmax_prob (state ! pos) i))) [0..<ntokens_of c]"
    by (simp add: l)
  from t sp s0 have tV: "obs ! pos < ntokens_of c" by simp
  let ?p = "softmax_prob (state ! pos) (obs ! pos)"
  have p: "0 < ?p" by (rule softmax_prob_pos[OF ne])
  then have e: "exp (- ln ?p) = 1 / ?p" by (simp add: exp_minus inverse_eq_divide)
  from s sp s0 tV have rs: "row_surp r = fl_log2 (torch_exp (Flt (- ln ?p)))"
    by simp
  show ?thesis
  proof (cases "float32_max < 1 / ?p")
    case True
    then have "float32_max < exp (- ln ?p)" by (simp only: e)
    from bits_of_nats_overflow[OF this] rs True pos show ?thesis by simp
  next
    case False
    then have "exp (- ln ?p) \<le> float32_max" by (simp only: e)
    from bits_of_nats[OF this] rs False pos show ?thesis by (simp add: log_def)
  qed
qed

section \<open>The example run\<close>

lemma upt2: "[0..<2] = [0, 1]" by (simp add: upt_rec numeral_2_eq_2)

lemma demo_args_sel:
  "guess demo_args = False" "complexn demo_args = 2" "softcliptopk demo_args = False"
  by (simp_all add: demo_args_def)

lemma demo_ntokens: "ntokens_of demo_corpus = 2"
  by (simp add: ntokens_of_def demo_corpus_def)

lemma softmax_prob_pair:
  "softmax_prob [x, y] 0 = exp x / (exp x + exp y)"
  "softmax_prob [x, y] (Suc 0) = exp y / (exp x + exp y)"
  by (simp_all add: softmax_prob_def numeral_2_eq_2 lessThan_Suc add.commute)

lemma entropy_nats_pair:
  "entropy_nats p {..<Suc (Suc 0)} = - (p 0 * ln (p 0) + p (Suc 0) * ln (p (Suc 0)))"
  by (simp add: entropy_nats_def lessThan_Suc add.commute)

lemma demo_entropy_uniform: "get_entropy demo_args [0, 0] = Inr (Flt (ln 2))"
proof -
  have "get_entropy demo_args [0, 0] =
      Inr (Flt (entropy_nats (softmax_prob [0, 0]) {..<length [0::real, 0]}))"
    by (rule get_entropy_full) (simp_all add: demo_args_sel)
  also have "entropy_nats (softmax_prob [0, 0]) {..<length [0::real, 0]} = ln 2"
    by (simp add: entropy_nats_pair softmax_prob_pair ln_div)
  finally show ?thesis .
qed

lemma demo_entropy_skewed:
  "get_entropy demo_args [0, ln 3] = Inr (Flt (ln 4 - 3 / 4 * ln 3))"
proof -
  have "get_entropy demo_args [0, ln 3] =
      Inr (Flt (entropy_nats (softmax_prob [0, ln 3]) {..<length [0::real, ln 3]}))"
    by (rule get_entropy_full) (simp_all add: demo_args_sel)
  also have "entropy_nats (softmax_prob [0, ln 3]) {..<length [0::real, ln 3]} = ln 4 - 3 / 4 * ln 3"
    by (simp add: entropy_nats_pair softmax_prob_pair ln_div algebra_simps)
  finally show ?thesis .
qed

lemma demo_surps_uniform: "get_surps demo_args [0, 0] = Inr [Flt (ln 2), Flt (ln 2)]"
proof -
  have "get_surps demo_args [0, 0] =
      Inr (map (\<lambda>i. Flt (- ln (softmax_prob [0, 0] i))) [0..<length [0::real, 0]])"
    by (rule get_surps_full) (simp_all add: demo_args_sel)
  then show ?thesis by (simp add: upt2 softmax_prob_pair ln_div)
qed

lemma demo_surps_skewed:
  "get_surps demo_args [0, ln 3] = Inr [Flt (ln 4), Flt (ln 4 - ln 3)]"
proof -
  have "get_surps demo_args [0, ln 3] =
      Inr (map (\<lambda>i. Flt (- ln (softmax_prob [0, ln 3] i))) [0..<length [0::real, ln 3]])"
    by (rule get_surps_full) (simp_all add: demo_args_sel)
  then show ?thesis by (simp add: upt2 softmax_prob_pair ln_div)
qed

lemma ln4: "ln (4::real) = 2 * ln 2"
  using ln_realpow[of "2::real" 2] by simp

lemma demo_H0_less_1: "demo_H0 < 1"
proof -
  have a: "ln (16::real) = 4 * ln 2" using ln_realpow[of "2::real" 4] by simp
  have b: "ln (27::real) = 3 * ln 3" using ln_realpow[of "3::real" 3] by simp
  have "ln (16::real) < ln 27" by simp
  then have "4 * ln (2::real) < 3 * ln 3" by (simp only: a b)
  then have "ln 4 - 3 / 4 * ln 3 < ln (2 :: real)" by (simp add: ln4)
  moreover have "0 < ln (2::real)" by simp
  ultimately show ?thesis unfolding demo_H0_def by (simp add: field_simps)
qed

text \<open>The entropies and surprisals of the example are far below the overflow.\<close>

lemma bits_small: "x \<le> 80 \<Longrightarrow> fl_log2 (torch_exp (Flt x)) = Flt (x / ln 2)"
  by (rule bits_of_nats[OF exp_le_float32_max])

lemma demo_small:
  "ln (2::real) \<le> 80" "ln (4::real) \<le> 80" "ln 4 - ln 3 \<le> (80::real)"
  "ln 4 - 3 / 4 * ln 3 \<le> (80::real)"
proof -
  show l2: "ln (2::real) \<le> 80" using ln_2_less_1 by simp
  have l3: "0 \<le> ln (3::real)" by simp
  show l4: "ln (4::real) \<le> 80" using ln_2_less_1 by (simp add: ln4)
  show "ln 4 - ln 3 \<le> (80::real)" using l3 l4 by linarith
  show "ln 4 - 3 / 4 * ln 3 \<le> (80::real)" using l3 l4 by linarith
qed

lemma demo_Hs:
  "complexity_Hs demo_args demo_state = Inr (Vector [Flt demo_H0, Flt 1, Flt demo_H0, Flt 1])"
proof -
  have "apply_rows (get_entropy demo_args) demo_state =
      Inr [Flt (ln 4 - 3 / 4 * ln 3), Flt (ln 2), Flt (ln 4 - 3 / 4 * ln 3), Flt (ln 2)]"
    by (simp add: apply_rows_def demo_state_def demo_entropy_uniform demo_entropy_skewed)
  moreover have "ln (2::real) / ln 2 = 1" by simp
  moreover have "squeeze [a, b, a, b] = Vector [a, b, a, b]" for a b
    by (simp add: squeeze_def)
  ultimately show ?thesis
    unfolding complexity_Hs_def
    by (simp only: sum.case tensor_map.simps list.map bits_small[OF demo_small(1)]
        bits_small[OF demo_small(4)] demo_H0_def)
qed

lemma demo_csurps:
  "complexity_surps demo_args demo_state =
     Inr [[Flt 2, Flt ((ln 4 - ln 3) / ln 2)], [Flt 1, Flt 1],
          [Flt 2, Flt ((ln 4 - ln 3) / ln 2)], [Flt 1, Flt 1]]"
proof -
  have "apply_rows (get_surps demo_args) demo_state =
      Inr [[Flt (ln 4), Flt (ln 4 - ln 3)], [Flt (ln 2), Flt (ln 2)],
           [Flt (ln 4), Flt (ln 4 - ln 3)], [Flt (ln 2), Flt (ln 2)]]"
    by (simp add: apply_rows_def demo_state_def demo_surps_uniform demo_surps_skewed)
  moreover have "ln (4::real) / ln 2 = 2" "ln (2::real) / ln 2 = 1" by (simp_all add: ln4)
  ultimately show ?thesis
    unfolding complexity_surps_def
    by (simp only: sum.case list.map bits_small[OF demo_small(1)] bits_small[OF demo_small(2)]
        bits_small[OF demo_small(3)])
qed

lemma upt4: "[0..<4] = [0, 1, 2, 3]"
  by (simp add: upt_rec numeral_eq_Suc)

lemma demo_rows:
  "get_complexity_rows demo_args demo_corpus demo_fmt demo_state demo_obs 7 =
     ([demo_row0, demo_row1, demo_row2], None)"
  using demo_H0_less_1
  by (simp add: get_complexity_rows_def demo_Hs demo_csurps demo_args_sel demo_obs_def upt4
      complexity_row_def nth_err_def entred_at_def py_max0_def fl_sub_def demo_corpus_def
      demo_row0_def demo_row1_def demo_row2_def)

section \<open>Entropy reduction\<close>

lemma entred_at_nonneg:
  "entred_at Hs pos = Inr er \<Longrightarrow> num_val er = Flt 0 \<or> fl_gt (num_val er) (Flt 0)"
  unfolding entred_at_def py_max0_def by (auto split: sum.splits if_splits)

lemma fl_sub_self_not_gt: "\<not> fl_gt (fl_sub h h) (Flt 0)"
  by (cases h) (simp_all add: fl_sub_def)

lemma entred_at_zero: "entred_at Hs 0 = Inr er \<Longrightarrow> er = PyInt 0"
  unfolding entred_at_def py_max0_def
  by (auto split: sum.splits if_splits simp: fl_sub_self_not_gt)

lemma entred_at_val:
  assumes "entred_at (Vector xs) pos = Inr er"
  shows "pos < length xs \<and>
    num_val er = (if fl_gt (fl_sub (xs ! (pos - 1)) (xs ! pos)) (Flt 0)
                  then fl_sub (xs ! (pos - 1)) (xs ! pos) else Flt 0)"
proof -
  have "nat (max (int pos - 1) 0) = pos - 1" by simp
  with assms show ?thesis
    unfolding entred_at_def py_max0_def
    by (auto simp: nth_err_def split: sum.splits if_splits)
qed

text \<open>
  C10. In every printed row the entropy reduction is zero or greater than zero, and in a
  row at position \<open>0\<close> it is zero.
\<close>

theorem entred_nonneg_zero_at_start:
  assumes r: "r \<in> set (fst (get_complexity_rows a c f state obs sentid))"
  shows "(num_val (row_entred r) = Flt 0 \<or> fl_gt (num_val (row_entred r)) (Flt 0)) \<and>
         (row_sentpos r = 0 \<longrightarrow> num_val (row_entred r) = Flt 0)"
proof -
  from get_complexity_rows_rowD[OF r] obtain Hs surps guesses gscores pos where
    row: "complexity_row a c f Hs surps guesses gscores sentid pos (obs ! pos) = Inr (Some r)"
    by blast
  have pos: "row_sentpos r = pos" by (rule complexity_row_SomeD(1)[OF row])
  have er: "entred_at Hs pos = Inr (row_entred r)" by (rule complexity_row_SomeD(8)[OF row])
  from entred_at_nonneg[OF er] entred_at_zero[of Hs "row_entred r"] er pos
  show ?thesis by auto
qed

theorem entred_nonneg_zero_at_start_witness:
  "demo_row0 \<in> set (fst (get_complexity_rows demo_args demo_corpus demo_fmt demo_state demo_obs 7)) \<and>
   row_sentpos demo_row0 = 0 \<and> num_val (row_entred demo_row0) = Flt 0"
proof -
  have m: "demo_row0 \<in> set (fst (get_complexity_rows demo_args demo_corpus demo_fmt demo_state demo_obs 7))"
    by (simp add: demo_rows)
  from entred_nonneg_zero_at_start[OF m] m show ?thesis by (simp add: demo_row0_def)
qed

text \<open>
  C1, as the code has it. The entropy reduction of a printed row at position \<open>p\<close> is
  \<open>max(0, H[max(p-1, 0)] - H[p])\<close>: the decrease in entropy from position \<open>p-1\<close> to
  \<open>p\<close> when the entropy decreases, and \<open>0\<close> when it does not, or at position \<open>0\<close>.
  \<open>Hs\<close> are the entropies of all positions of the sentence.
\<close>

theorem entred_is_clipped_decrease:
  assumes r: "r \<in> set (fst (get_complexity_rows a c f state obs sentid))"
  shows "\<exists>Hs. complexity_Hs a state = Inr (Vector Hs) \<and> row_sentpos r < length Hs \<and>
           row_entropy r = Hs ! row_sentpos r \<and>
           num_val (row_entred r) =
             (if fl_gt (fl_sub (Hs ! (row_sentpos r - 1)) (Hs ! row_sentpos r)) (Flt 0)
              then fl_sub (Hs ! (row_sentpos r - 1)) (Hs ! row_sentpos r) else Flt 0)"
proof -
  from get_complexity_rows_rowD[OF r] obtain T surps guesses gscores pos where
    T: "complexity_Hs a state = Inr T"
    and row: "complexity_row a c f T surps guesses gscores sentid pos (obs ! pos) = Inr (Some r)"
    by blast
  have pos: "row_sentpos r = pos" by (rule complexity_row_SomeD(1)[OF row])
  from tensor_nth_Inr[OF complexity_row_SomeD(7)[OF row]] obtain Hs where
    Hs: "T = Vector Hs" and h: "Hs ! pos = row_entropy r" by blast
  have er: "entred_at (Vector Hs) pos = Inr (row_entred r)"
    using complexity_row_SomeD(8)[OF row] Hs by simp
  from entred_at_val[OF er] T Hs h pos show ?thesis by auto
qed

theorem entred_is_clipped_decrease_witness:
  "demo_row2 \<in> set (fst (get_complexity_rows demo_args demo_corpus demo_fmt demo_state demo_obs 7)) \<and>
   (\<exists>Hs. complexity_Hs demo_args demo_state = Inr (Vector Hs) \<and>
           row_sentpos demo_row2 < length Hs \<and>
           row_entropy demo_row2 = Hs ! row_sentpos demo_row2 \<and>
           num_val (row_entred demo_row2) =
             (if fl_gt (fl_sub (Hs ! (row_sentpos demo_row2 - 1)) (Hs ! row_sentpos demo_row2)) (Flt 0)
              then fl_sub (Hs ! (row_sentpos demo_row2 - 1)) (Hs ! row_sentpos demo_row2) else Flt 0))"
proof -
  have m: "demo_row2 \<in> set (fst (get_complexity_rows demo_args demo_corpus demo_fmt demo_state demo_obs 7))"
    by (simp add: demo_rows)
  from entred_is_clipped_decrease[OF m] m show ?thesis by blast
qed

text \<open>
  C1 as stated fails: in the example run the row at position \<open>1\<close> has entropy \<open>1\<close>
  after entropy \<open>demo_H0 < 1\<close> at position \<open>0\<close>; its entropy reduction is \<open>0\<close>, not
  the difference \<open>demo_H0 - 1\<close>.
\<close>

theorem entred_not_plain_difference:
  "fst (get_complexity_rows demo_args demo_corpus demo_fmt demo_state demo_obs 7) =
     [demo_row0, demo_row1, demo_row2] \<and>
   row_sentpos demo_row0 = 0 \<and> row_sentpos demo_row1 = 1 \<and>
   num_val (row_entred demo_row1) \<noteq> fl_sub (row_entropy demo_row0) (row_entropy demo_row1)"
  using demo_H0_less_1 by (simp add: demo_rows demo_row0_def demo_row1_def fl_sub_def)

theorem entropy_field_is_shannon_entropy_witness:
  "demo_row1 \<in> set (fst (get_complexity_rows demo_args demo_corpus demo_fmt demo_state demo_obs 7)) \<and>
   complexn demo_args = int (ntokens_of demo_corpus) \<and>
   map length demo_state = replicate 4 (ntokens_of demo_corpus) \<and>
   real (ntokens_of demo_corpus) \<le> float32_max \<and>
   row_entropy demo_row1 =
     Flt (entropy_bits (softmax_prob (demo_state ! row_sentpos demo_row1)) {..<ntokens_of demo_corpus})"
proof -
  have m: "demo_row1 \<in> set (fst (get_complexity_rows demo_args demo_corpus demo_fmt demo_state demo_obs 7))"
    by (simp add: demo_rows)
  have k: "complexn demo_args = int (ntokens_of demo_corpus)"
    by (simp add: demo_args_sel demo_ntokens)
  have len: "\<forall>row\<in>set demo_state. length row = ntokens_of demo_corpus"
    by (simp add: demo_state_def demo_ntokens)
  have len': "map length demo_state = replicate 4 (ntokens_of demo_corpus)"
    by (simp add: demo_state_def demo_ntokens numeral_eq_Suc)
  have V32: "real (ntokens_of demo_corpus) \<le> float32_max"
    by (simp add: demo_ntokens float32_max_def)
  from entropy_field_is_shannon_entropy[OF m k len V32] m k len' V32 show ?thesis by blast
qed

section \<open>Top-k restriction of the distribution\<close>

lemma renorm_sums_to_1:
  assumes S: "S \<subseteq> {..<length state}" and ne: "S \<noteq> {}"
  shows "(\<Sum>i\<in>S. renorm (softmax_prob state) S i) = 1"
proof -
  have fin: "finite S" using S by (rule finite_subset) simp
  have Z: "0 < (\<Sum>j\<in>S. exp (state ! j))" by (rule expsum_pos[OF fin ne])
  have "(\<Sum>i\<in>S. renorm (softmax_prob state) S i) =
        (\<Sum>i\<in>S. exp (state ! i) / (\<Sum>j\<in>S. exp (state ! j)))"
    by (rule sum.cong) (simp_all add: renorm_softmax[OF S ne])
  also have "\<dots> = (\<Sum>i\<in>S. exp (state ! i)) / (\<Sum>j\<in>S. exp (state ! j))"
    by (rule sum_divide_distrib[symmetric])
  also have "\<dots> = 1" using Z by simp
  finally show ?thesis .
qed

lemma softmax_beam_on_renorm:
  assumes S: "S \<subseteq> {..<length state}" and ne: "S \<noteq> {}"
  shows "softmax (beam_on state S) =
    map (\<lambda>i. Flt (renorm (softmax_prob state) S i)) [0..<length state]"
  unfolding softmax_beam_on[OF S ne]
proof (rule map_cong[OF refl])
  fix i assume "i \<in> set [0..<length state]"
  show "Flt (if i \<in> S then exp (state ! i) / (\<Sum>j\<in>S. exp (state ! j)) else 0) =
        Flt (renorm (softmax_prob state) S i)"
  proof (cases "i \<in> S")
    case True
    then show ?thesis by (simp add: renorm_softmax[OF S ne])
  next
    case False
    then show ?thesis by (simp add: renorm_def)
  qed
qed

text \<open>
  C4. With \<open>0 < complexn \<le>\<close> vocabulary size and \<open>softcliptopk\<close> off, there is a set
  \<open>S\<close> of \<open>complexn\<close> classes whose scores are at least the scores of all other
  classes, such that the probabilities the code computes are the softmax distribution
  renormalised over \<open>S\<close> (which sums to one over \<open>S\<close> and is zero outside of it), the
  entropy is the entropy of that distribution, and the surprisal of a class is the
  negative log of its renormalised probability (infinite outside \<open>S\<close>).
\<close>

theorem topk_restricts_and_renormalises:
  assumes k0: "0 < complexn a" and kn: "complexn a \<le> int (length state)"
    and sc: "\<not> softcliptopk a"
  shows "\<exists>S. S \<subseteq> {..<length state} \<and> card S = nat (complexn a) \<and>
     (\<forall>i\<in>S. \<forall>j<length state. j \<notin> S \<longrightarrow> state ! j \<le> state ! i) \<and>
     (\<exists>b. beam a state = Inr b \<and>
          softmax b = map (\<lambda>i. Flt (renorm (softmax_prob state) S i)) [0..<length state]) \<and>
     (\<Sum>i\<in>S. renorm (softmax_prob state) S i) = 1 \<and>
     (\<forall>i. i \<notin> S \<longrightarrow> renorm (softmax_prob state) S i = 0) \<and>
     get_entropy a state = Inr (Flt (entropy_nats (renorm (softmax_prob state) S) S)) \<and>
     get_surps a state =
       Inr (map (\<lambda>i. if i \<in> S then Flt (- ln (renorm (softmax_prob state) S i)) else PosInf)
              [0..<length state])"
proof -
  obtain vals ix where tk: "topk state (complexn a) = Inr (vals, ix)"
    using topk_ok[of "complexn a" state] k0 kn by auto
  let ?S = "set ix"
  have S: "?S \<subseteq> {..<length state}" by (rule topk_props(5)[OF tk])
  have card: "card ?S = nat (complexn a)"
    using topk_props(3,4)[OF tk] by (simp add: distinct_card)
  have ne: "?S \<noteq> {}" using card k0 by auto
  have dom: "\<forall>i\<in>?S. \<forall>j<length state. j \<notin> ?S \<longrightarrow> state ! j \<le> state ! i"
    by (rule topk_props(7)[OF tk])
  have b: "beam a state = Inr (beam_on state ?S)"
    by (rule beam_topk[OF _ tk sc]) (use k0 in simp)
  have out: "\<forall>i. i \<notin> ?S \<longrightarrow> renorm (softmax_prob state) ?S i = 0"
    by (simp add: renorm_def)
  show ?thesis
    using S card dom b softmax_beam_on_renorm[OF S ne] renorm_sums_to_1[OF S ne] out
      get_entropy_beam_on[OF b S ne] get_surps_beam_on[OF b S ne]
    by blast
qed

theorem topk_restricts_and_renormalises_witness:
  "0 < complexn demo_args \<and> complexn demo_args \<le> int (length [0, ln 3, - 5 :: real]) \<and>
   \<not> softcliptopk demo_args \<and>
   (\<exists>S. S \<subseteq> {..<length [0, ln 3, - 5 :: real]} \<and> card S = nat (complexn demo_args) \<and>
     (\<forall>i\<in>S. \<forall>j<length [0, ln 3, - 5 :: real]. j \<notin> S \<longrightarrow>
        [0, ln 3, - 5 :: real] ! j \<le> [0, ln 3, - 5 :: real] ! i) \<and>
     (\<exists>b. beam demo_args [0, ln 3, - 5] = Inr b \<and>
          softmax b = map (\<lambda>i. Flt (renorm (softmax_prob [0, ln 3, - 5]) S i))
                        [0..<length [0, ln 3, - 5 :: real]]) \<and>
     (\<Sum>i\<in>S. renorm (softmax_prob [0, ln 3, - 5]) S i) = 1 \<and>
     (\<forall>i. i \<notin> S \<longrightarrow> renorm (softmax_prob [0, ln 3, - 5]) S i = 0) \<and>
     get_entropy demo_args [0, ln 3, - 5] =
       Inr (Flt (entropy_nats (renorm (softmax_prob [0, ln 3, - 5]) S) S)) \<and>
     get_surps demo_args [0, ln 3, - 5] =
       Inr (map (\<lambda>i. if i \<in> S then Flt (- ln (renorm (softmax_prob [0, ln 3, - 5]) S i)) else PosInf)
              [0..<length [0, ln 3, - 5 :: real]]))"
proof -
  have h1: "0 < complexn demo_args" by (simp add: demo_args_sel)
  have h2: "complexn demo_args \<le> int (length [0, ln 3, - 5 :: real])" by (simp add: demo_args_sel)
  have h3: "\<not> softcliptopk demo_args" by (simp add: demo_args_sel)
  from topk_restricts_and_renormalises[OF h1 h2 h3] h1 h2 h3 show ?thesis by blast
qed

lemma upt3: "[0..<3] = [0, 1, 2]"
  by (simp add: upt_rec numeral_eq_Suc)

lemma demo_topk_beam: "beam demo_args [0, ln 3, - 5] = Inr [Flt 0, Flt (ln 3), NegInf]"
proof -
  have "0 \<le> ln (3::real)" by simp
  then have "- ln 3 \<le> (5::real)" by linarith
  then show ?thesis by (simp add: beam_def demo_args_sel topk_def upt3 scatter_def)
qed

lemma demo_topk_probs:
  "softmax [Flt 0, Flt (ln 3), NegInf] = [Flt (1 / 4), Flt (3 / 4), Flt 0]"
  by (simp add: softmax_def fl_sum_def)

section \<open>Parameters during test-time evaluation\<close>

lemma set_beamsize_sel:
  "adapt (set_beamsize a n) = adapt a" "view_layer (set_beamsize a n) = view_layer a"
  "words (set_beamsize a n) = words a" "nocheader (set_beamsize a n) = nocheader a"
  "csep (set_beamsize a n) = csep a" "guess (set_beamsize a n) = guess a"
  "lr (set_beamsize a n) = lr a" "clip (set_beamsize a n) = clip a"
  by (simp_all add: set_beamsize_def)

lemma pdata_zero_grad: "map pdata (zero_grad ps) = map pdata ps"
  by (simp add: zero_grad_def comp_def)

lemma view_layer_loop_pdata:
  "map pdata (model_params (fst (view_layer_loop a c env n wts hidden st))) =
   map pdata (model_params st)"
proof (induction wts arbitrary: hidden st)
  case Nil
  then show ?case by simp
next
  case (Cons wt wts)
  obtain w t where wt: "wt = (w, t)" by (cases wt)
  show ?case
    unfolding wt
    by (simp add: Let_def pdata_zero_grad Cons.IH split: prod.splits sum.splits)
qed

lemma eval_sentence_pdata:
  assumes "\<not> adapt a \<or> view_layer a \<ge> 0"
  shows "map pdata (model_params (fst (eval_sentence a c f env ts ds n i st))) =
         map pdata (model_params st)"
  using assms unfolding eval_sentence_def
  by (auto simp: Let_def view_layer_loop_pdata split: prod.splits sum.splits option.splits)

lemma eval_loop_pdata:
  assumes "\<not> adapt a \<or> view_layer a \<ge> 0"
  shows "map pdata (model_params (fst (eval_loop a c f env ts ds n is st))) =
         map pdata (model_params st)"
proof (induction "is" arbitrary: st)
  case Nil
  then show ?case by simp
next
  case (Cons i "is")
  obtain st' err where es: "eval_sentence a c f env ts ds n i st = (st', err)"
    by (cases "eval_sentence a c f env ts ds n i st")
  have p: "map pdata (model_params st') = map pdata (model_params st)"
    using eval_sentence_pdata[OF assms, of c f env ts ds n i st] es by simp
  show ?case
  proof (cases err)
    case None
    with es Cons.IH[of st'] p show ?thesis by simp
  next
    case (Some e)
    with es p show ?thesis by simp
  qed
qed

lemma eval_start_props:
  assumes "eval_start a c st = (a', st1)"
  shows "a' = set_beamsize a (ntokens_of c)" "model_params st1 = model_params st"
  using assms by (auto simp: eval_start_def Let_def split: if_splits)

lemma test_evaluate_pdata:
  assumes "\<not> adapt a \<or> view_layer a \<ge> 0"
  shows "map pdata (model_params (fst (test_evaluate a c f env ts ds st))) =
         map pdata (model_params st)"
proof -
  obtain a' st1 where start: "eval_start a c st = (a', st1)" by (cases "eval_start a c st")
  have a': "\<not> adapt a' \<or> view_layer a' \<ge> 0"
    using assms eval_start_props(1)[OF start] by (simp add: set_beamsize_sel)
  obtain st2 err where el:
    "eval_loop a' c f env ts ds (ntokens_of c) [0..<length ds] st1 = (st2, err)"
    by (cases "eval_loop a' c f env ts ds (ntokens_of c) [0..<length ds] st1")
  have "map pdata (model_params st2) = map pdata (model_params st1)"
    using eval_loop_pdata[OF a', of c f env ts ds "ntokens_of c" "[0..<length ds]" st1] el
    by simp
  then have p2: "map pdata (model_params st2) = map pdata (model_params st)"
    by (simp add: eval_start_props(2)[OF start])
  have "fst (test_evaluate a c f env ts ds st) = st2"
    by (simp add: test_evaluate_def start el split: option.splits)
  with p2 show ?thesis by simp
qed

lemma length_adapt_step: "length (adapt_step a env data targets ps) = length ps"
  by (simp add: adapt_step_def clip_grad_norm_def backward_def)

lemma pdata_clip_backward:
  "j < length ps \<Longrightarrow>
   pdata (clip_grad_norm m (backward env data targets ps) ! j) = pdata (ps ! j)"
  by (simp add: clip_grad_norm_def backward_def)

lemma adapt_step_nth:
  assumes "j < length ps"
  shows "pdata (adapt_step a env data targets ps ! j) =
     (case pgrad (clip_grad_norm (clip a) (backward env data targets ps) ! j) of
        None \<Rightarrow> pdata (ps ! j)
      | Some g \<Rightarrow> pdata (ps ! j) - lr a * g)"
proof -
  let ?q = "clip_grad_norm (clip a) (backward env data targets ps)"
  have len: "length ?q = length ps" by (simp add: clip_grad_norm_def backward_def)
  have "adapt_step a env data targets ps ! j = update_param (lr a) (?q ! j)"
    using assms len by (simp add: adapt_step_def)
  then show ?thesis
    using pdata_clip_backward[OF assms, of "clip a" env data targets]
    by (simp add: update_param_def split: option.splits)
qed

lemma eval_sentence_adapt:
  assumes "adapt a" "view_layer a < 0" "eval_sentence a c f env ts ds n i st = (st', None)"
  shows "model_params st' =
     adapt_step a env (fst (test_get_batch (ds ! i))) (snd (test_get_batch (ds ! i)))
       (model_params st)"
  using assms unfolding eval_sentence_def
  by (auto simp: Let_def split: prod.splits sum.splits option.splits if_splits)

text \<open>
  C7. Without \<open>adapt\<close>, \<open>test_evaluate\<close> leaves the value of every model parameter
  as it was. With \<open>adapt\<close> (and no \<open>view_layer\<close>) every evaluated sentence applies one
  update step, and that step subtracts from every parameter with a gradient the learning
  rate times its clipped gradient.
\<close>

theorem params_change_only_when_adapting:
  "(\<not> adapt a \<longrightarrow>
      map pdata (model_params (fst (test_evaluate a c f env ts ds st))) =
      map pdata (model_params st)) \<and>
   (adapt a \<and> view_layer a < 0 \<and> eval_sentence a c f env ts ds n i st = (st', None) \<longrightarrow>
      model_params st' =
        adapt_step a env (fst (test_get_batch (ds ! i))) (snd (test_get_batch (ds ! i)))
          (model_params st)) \<and>
   (j < length ps \<longrightarrow>
      pdata (adapt_step a env data targets ps ! j) =
        (case pgrad (clip_grad_norm (clip a) (backward env data targets ps) ! j) of
           None \<Rightarrow> pdata (ps ! j)
         | Some g \<Rightarrow> pdata (ps ! j) - lr a * g))"
  using test_evaluate_pdata[of a c f env ts ds st] eval_sentence_adapt[of a c f env ts ds n i st st']
    adapt_step_nth[of j ps a env data targets]
  by blast

lemma demo_adapt_sel:
  "adapt demo_adapt_args" "view_layer demo_adapt_args = - 1" "\<not> words demo_adapt_args"
  by (simp_all add: demo_adapt_args_def demo_args_def)

lemma demo_eval_sentence:
  "eval_sentence demo_adapt_args demo_corpus demo_fmt demo_env [] [[0, 0, 1]] 2 0 demo_st =
     (demo_adapted_st, None)"
  by (simp add: eval_sentence_def test_get_batch_def demo_adapt_sel demo_env_def view_rows_def
      upt2 demo_st_def demo_adapted_st_def demo_fmt_def)

theorem params_change_only_when_adapting_witness:
  "\<not> adapt demo_args \<and>
   map pdata (model_params (fst (test_evaluate demo_args demo_corpus demo_fmt demo_env []
      [[0, 0, 1]] demo_st))) = map pdata (model_params demo_st) \<and>
   adapt demo_adapt_args \<and> view_layer demo_adapt_args < 0 \<and>
   eval_sentence demo_adapt_args demo_corpus demo_fmt demo_env [] [[0, 0, 1]] 2 0 demo_st =
     (demo_adapted_st, None) \<and>
   model_params demo_adapted_st =
     adapt_step demo_adapt_args demo_env (fst (test_get_batch ([[0, 0, 1]] ! 0)))
       (snd (test_get_batch ([[0, 0, 1]] ! 0))) (model_params demo_st) \<and>
   0 < length (model_params demo_st) \<and>
   pdata (adapt_step demo_adapt_args demo_env [0, 0] [0, 1] (model_params demo_st) ! 0) =
     (case pgrad (clip_grad_norm (clip demo_adapt_args)
                    (backward demo_env [0, 0] [0, 1] (model_params demo_st)) ! 0) of
        None \<Rightarrow> pdata (model_params demo_st ! 0)
      | Some g \<Rightarrow> pdata (model_params demo_st ! 0) - lr demo_adapt_args * g)"
proof -
  have h1: "\<not> adapt demo_args" by (simp add: demo_args_def)
  have h2: "adapt demo_adapt_args \<and> view_layer demo_adapt_args < 0 \<and>
    eval_sentence demo_adapt_args demo_corpus demo_fmt demo_env [] [[0, 0, 1]] 2 0 demo_st =
     (demo_adapted_st, None)"
    by (intro conjI demo_eval_sentence) (simp_all add: demo_adapt_sel)
  have h3: "0 < length (model_params demo_st)" by (simp add: demo_st_def)
  from params_change_only_when_adapting[where a = demo_args and c = demo_corpus and f = demo_fmt
      and env = demo_env and ts = "[]" and ds = "[[0, 0, 1]]" and st = demo_st] h1
  have c1: "map pdata (model_params (fst (test_evaluate demo_args demo_corpus demo_fmt demo_env []
      [[0, 0, 1]] demo_st))) = map pdata (model_params demo_st)" by blast
  from params_change_only_when_adapting[where a = demo_adapt_args and c = demo_corpus
      and f = demo_fmt and env = demo_env and ts = "[]" and ds = "[[0, 0, 1]]" and st = demo_st
      and n = 2 and i = 0 and st' = demo_adapted_st and j = 0 and ps = "model_params demo_st"
      and data = "[0, 0]" and targets = "[0, 1]"]
    h2 h3
  have c2: "model_params demo_adapted_st =
     adapt_step demo_adapt_args demo_env (fst (test_get_batch ([[0, 0, 1]] ! 0)))
       (snd (test_get_batch ([[0, 0, 1]] ! 0))) (model_params demo_st)"
    and c3: "pdata (adapt_step demo_adapt_args demo_env [0, 0] [0, 1] (model_params demo_st) ! 0) =
     (case pgrad (clip_grad_norm (clip demo_adapt_args)
                    (backward demo_env [0, 0] [0, 1] (model_params demo_st)) ! 0) of
        None \<Rightarrow> pdata (model_params demo_st ! 0)
      | Some g \<Rightarrow> pdata (model_params demo_st ! 0) - lr demo_adapt_args * g)"
    by blast+
  from h1 h2 h3 c1 c2 c3 show ?thesis by blast
qed

section \<open>The reshape error\<close>

lemma eval_loop_append:
  "eval_loop a c f env ts ds n (xs @ ys) st =
     (case eval_loop a c f env ts ds n xs st of
        (st', Some e) \<Rightarrow> (st', Some e)
      | (st', None) \<Rightarrow> eval_loop a c f env ts ds n ys st')"
proof (induction xs arbitrary: st)
  case Nil
  then show ?case by simp
next
  case (Cons x xs)
  obtain st' err where es: "eval_sentence a c f env ts ds n x st = (st', err)"
    by (cases "eval_sentence a c f env ts ds n x st")
  show ?case
  proof (cases err)
    case None
    with es Cons.IH[of st'] show ?thesis by simp
  next
    case (Some e)
    with es show ?thesis by simp
  qed
qed

lemma view_rows_error: "view_rows n output = Inl e \<Longrightarrow> e = RuntimeError"
  by (simp add: view_rows_def split: if_splits)

lemma eval_sentence_reshape_fails:
  assumes vl: "view_layer a < 0" and sent: "ts = [] \<or> i < length ts"
    and bad: "view_rows n (fst (model_call env (map pdata (model_params st))
                (fst (test_get_batch (ds ! i))) (init_hidden env))) = Inl e"
  shows "eval_sentence a c f env ts ds n i st =
           (st\<lparr>stdout := stdout st @ [vocab_warning]\<rparr>, Some RuntimeError)"
proof -
  have e: "e = RuntimeError" by (rule view_rows_error[OF bad])
  from sent have "\<exists>s. (if ts \<noteq> [] then nth_err ts i else Inr []) = Inr s"
    by (auto simp: nth_err_def)
  then obtain s where s: "(if ts \<noteq> [] then nth_err ts i else Inr []) = Inr s" by blast
  obtain data targets where tb: "test_get_batch (ds ! i) = (data, targets)"
    by (cases "test_get_batch (ds ! i)")
  obtain outp hidden where
    mc: "model_call env (map pdata (model_params st)) data (init_hidden env) = (outp, hidden)"
    by (cases "model_call env (map pdata (model_params st)) data (init_hidden env)")
  from bad tb mc e have vr: "view_rows n outp = Inl RuntimeError" by simp
  from vl have nv: "\<not> 0 \<le> view_layer a" by simp
  show ?thesis
    unfolding eval_sentence_def s by (simp add: tb mc vr nv)
qed

lemma view_layer_loop_append:
  assumes "view_layer_loop a c env n pre h st = (st', None)"
  shows "view_layer_loop a c env n (pre @ rest) h st =
         view_layer_loop a c env n rest
           (hidden_after env (map pdata (model_params st)) (map fst pre) h) st'"
  using assms
proof (induction pre arbitrary: h st)
  case Nil
  then show ?case by simp
next
  case (Cons wt pre)
  obtain w t where wt: "wt = (w, t)" by (cases wt)
  let ?ps = "map pdata (model_params st)"
  obtain outp h' where mc: "model_call env ?ps [w] h = (outp, h')"
    by (cases "model_call env ?ps [w] h")
  from Cons.prems obtain rows where vr: "view_rows n outp = Inr rows"
    unfolding wt by (auto simp: Let_def pdata_zero_grad mc split: sum.splits)
  from Cons.prems obtain loss where cr: "criterion env rows [t] = Inr loss"
    unfolding wt by (auto simp: Let_def pdata_zero_grad mc vr split: sum.splits)
  from Cons.prems obtain tw where tw: "nth_err (idx2word c) t = Inr tw"
    unfolding wt by (auto simp: Let_def pdata_zero_grad mc vr cr split: sum.splits)
  define st4 where "st4 =
     (let st3 = st\<lparr>model_params := zero_grad (model_params st),
                   total_loss := fl_add (total_loss st) loss, nwords := nwords st + 1\<rparr>
      in if tw \<noteq> ''<eos>''
         then st3\<lparr>stdout := stdout st3 @ [hidden_line env (view_hidden a) (view_layer a) h']\<rparr>
         else st3)"
  have step: "view_layer_loop a c env n ((w, t) # wts) h st =
      view_layer_loop a c env n wts h' st4" for wts
    by (simp add: Let_def pdata_zero_grad mc vr cr tw st4_def)
  have p4: "map pdata (model_params st4) = ?ps"
    by (simp add: st4_def Let_def pdata_zero_grad)
  from Cons.prems have "view_layer_loop a c env n pre h' st4 = (st', None)"
    unfolding wt step .
  from Cons.IH[OF this] show ?case
    unfolding wt by (simp only: append_Cons step p4 list.map fst_conv hidden_after.simps mc snd_conv)
qed

lemma view_layer_loop_reshape_fails:
  assumes "view_rows n (fst (model_call env (map pdata (model_params st)) [w] h)) = Inl e"
  shows "view_layer_loop a c env n ((w, t) # rest) h st =
           (st\<lparr>model_params := zero_grad (model_params st)\<rparr>, Some RuntimeError)"
proof -
  obtain outp h' where mc: "model_call env (map pdata (model_params st)) [w] h = (outp, h')"
    by (cases "model_call env (map pdata (model_params st)) [w] h")
  from assms mc have "view_rows n outp = Inl RuntimeError"
    using view_rows_error[of n outp e] by simp
  then show ?thesis by (simp add: Let_def pdata_zero_grad mc)
qed

lemma length_test_get_batch:
  "test_get_batch s = (data, targets) \<Longrightarrow> length targets = length data"
  by (auto simp: test_get_batch_def Let_def)

lemma eval_sentence_view_layer:
  assumes vl: "0 \<le> view_layer a" and sent: "ts = [] \<or> i < length ts"
    and tb: "test_get_batch (ds ! i) = (data, targets)"
  shows "eval_sentence a c f env ts ds n i st =
           view_layer_loop a c env n (zip data targets) (init_hidden env) st"
proof -
  from sent have "\<exists>s. (if ts \<noteq> [] then nth_err ts i else Inr []) = Inr s"
    by (auto simp: nth_err_def)
  then obtain s where s: "(if ts \<noteq> [] then nth_err ts i else Inr []) = Inr s" by blast
  show ?thesis unfolding eval_sentence_def s by (simp add: tb vl)
qed

lemma eval_sentence_view_reshape_fails:
  assumes vl: "0 \<le> view_layer a" and sent: "ts = [] \<or> i < length ts"
    and tb: "test_get_batch (ds ! i) = (data, targets)" and j: "j < length data"
    and pre: "view_layer_loop a c env n (take j (zip data targets)) (init_hidden env) st =
                (stj, None)"
    and bad: "view_rows n (fst (model_call env (map pdata (model_params st)) [data ! j]
                (hidden_after env (map pdata (model_params st)) (take j data)
                   (init_hidden env)))) = Inl e"
  shows "eval_sentence a c f env ts ds n i st =
           (stj\<lparr>model_params := zero_grad (model_params stj)\<rparr>, Some RuntimeError)"
proof -
  let ?z = "zip data targets"
  have len: "length targets = length data" by (rule length_test_get_batch[OF tb])
  with j have jz: "j < length ?z" by simp
  have z: "?z = take j ?z @ (data ! j, targets ! j) # drop (Suc j) ?z"
    using id_take_nth_drop[OF jz] jz by simp
  have mf: "map fst (take j ?z) = take j data"
    using len by (simp add: take_map[symmetric])
  have pj: "map pdata (model_params stj) = map pdata (model_params st)"
    using view_layer_loop_pdata[of a c env n "take j ?z" "init_hidden env" st] pre by simp
  have "view_layer_loop a c env n ?z (init_hidden env) st =
      view_layer_loop a c env n ((data ! j, targets ! j) # drop (Suc j) ?z)
        (hidden_after env (map pdata (model_params st)) (take j data) (init_hidden env)) stj"
    using view_layer_loop_append[OF pre, of "(data ! j, targets ! j) # drop (Suc j) ?z"] z mf
    by simp
  also have "\<dots> = (stj\<lparr>model_params := zero_grad (model_params stj)\<rparr>, Some RuntimeError)"
    by (rule view_layer_loop_reshape_fails[where e = e]) (simp add: pj bad)
  finally show ?thesis
    by (simp add: eval_sentence_view_layer[OF vl sent tb])
qed

lemma test_evaluate_raises:
  assumes start: "eval_start a c st = (a', st1)"
    and before: "eval_loop a' c f env ts ds (ntokens_of c) [0..<i] st1 = (sti, None)"
    and i: "i < length ds"
    and es: "eval_sentence a' c f env ts ds (ntokens_of c) i sti = (stf, Some err)"
  shows "test_evaluate a c f env ts ds st = (stf, a', Inl err)"
proof -
  have "[0..<length ds] = [0..<i] @ (i # [Suc i..<length ds])"
    using i by (metis upt_conv_Cons upt_add_eq_append le0 le_add_diff_inverse less_imp_le_nat)
  then have "eval_loop a' c f env ts ds (ntokens_of c) [0..<length ds] st1 = (stf, Some err)"
    by (simp add: eval_loop_append before es)
  then show ?thesis by (simp add: test_evaluate_def start)
qed

text \<open>What the two callers of \<open>test_evaluate\<close> do with an exception.\<close>

lemma run_test_raises:
  assumes "test_evaluate a c f env (if multisentence_test a then [] else sents) ds st =
             (stf, a', Inl err)"
  shows "run_test c f env sents ds \<lparr>prog_tstate = st, prog_args = a, adapted_model = m\<rparr> =
           (\<lparr>prog_tstate = stf, prog_args = a', adapted_model = m\<rparr>, Some err)"
  using assms by (simp add: run_test_def)

lemma interact_body_recovers:
  assumes "test_evaluate a c f env ts ds st = (stf, a', Inl err)"
  shows "interact_body c f env (ts, ds) \<lparr>prog_tstate = st, prog_args = a, adapted_model = m\<rparr> =
           \<lparr>prog_tstate = stf\<lparr>stdout := stdout stf @ interact_message\<rparr>, prog_args = a',
            adapted_model = (if adapt a' then Some (model_params stf) else m)\<rparr>"
  using assms by (simp add: interact_body_def)

text \<open>
  C9, as the code has it. The sentences before sentence \<open>i\<close> are evaluated without an
  exception, and the output of the model for sentence \<open>i\<close> cannot be reshaped to the
  vocabulary size: without \<open>view_layer\<close> this is the output for the whole sentence, and
  the state \<open>stf\<close> at the exception has the warning as its last line of output; with
  \<open>view_layer\<close> it is the output for the word \<open>j\<close> of the sentence, after the words
  before it went through, and \<open>stf\<close> has nothing printed after them. Then
  \<open>test_evaluate\<close> raises the \<open>RuntimeError\<close> of the reshape in the state \<open>stf\<close>: no
  later sentence is evaluated and nothing is returned. The test run without \<open>interact\<close>
  ends with this exception; the interactive loop catches it, prints its own message, saves
  the model when \<open>adapt\<close> is set, and goes on.
\<close>

theorem reshape_error_is_reraised:
  assumes start: "eval_start a c st = (a', st1)"
    and before: "eval_loop a' c f env ts ds (ntokens_of c) [0..<i] st1 = (sti, None)"
    and i: "i < length ds" and sent: "ts = [] \<or> i < length ts"
    and tb: "test_get_batch (ds ! i) = (data, targets)"
    and bad:
      "(view_layer a < 0 \<and>
        view_rows (ntokens_of c)
          (fst (model_call env (map pdata (model_params sti)) data (init_hidden env))) = Inl e \<and>
        stf = sti\<lparr>stdout := stdout sti @ [vocab_warning]\<rparr>) \<or>
       (0 \<le> view_layer a \<and> j < length data \<and>
        view_layer_loop a' c env (ntokens_of c) (take j (zip data targets)) (init_hidden env) sti =
          (stj, None) \<and>
        view_rows (ntokens_of c)
          (fst (model_call env (map pdata (model_params sti)) [data ! j]
             (hidden_after env (map pdata (model_params sti)) (take j data) (init_hidden env)))) =
          Inl e \<and>
        stf = stj\<lparr>model_params := zero_grad (model_params stj)\<rparr>)"
  shows "test_evaluate a c f env ts ds st = (stf, a', Inl RuntimeError) \<and>
    (ts = (if multisentence_test a then [] else sents) \<longrightarrow>
       run_test c f env sents ds \<lparr>prog_tstate = st, prog_args = a, adapted_model = m\<rparr> =
         (\<lparr>prog_tstate = stf, prog_args = a', adapted_model = m\<rparr>, Some RuntimeError)) \<and>
    interact_body c f env (ts, ds) \<lparr>prog_tstate = st, prog_args = a, adapted_model = m\<rparr> =
      \<lparr>prog_tstate = stf\<lparr>stdout := stdout stf @ interact_message\<rparr>, prog_args = a',
       adapted_model = (if adapt a then Some (model_params stf) else m)\<rparr> \<and>
    (prompted p = \<lparr>prog_tstate = st, prog_args = a, adapted_model = m\<rparr> \<longrightarrow>
       interact_loop c f env ((ts, ds) # inputs) p =
         interact_loop c f env inputs
           \<lparr>prog_tstate = stf\<lparr>stdout := stdout stf @ interact_message\<rparr>, prog_args = a',
            adapted_model = (if adapt a then Some (model_params stf) else m)\<rparr>)"
proof -
  have a': "view_layer a' = view_layer a" "adapt a' = adapt a"
    using eval_start_props(1)[OF start] by (simp_all add: set_beamsize_sel)
  have es: "eval_sentence a' c f env ts ds (ntokens_of c) i sti = (stf, Some RuntimeError)"
    using bad
  proof (elim disjE conjE)
    assume vl: "view_layer a < 0"
      and vr: "view_rows (ntokens_of c)
          (fst (model_call env (map pdata (model_params sti)) data (init_hidden env))) = Inl e"
      and stf: "stf = sti\<lparr>stdout := stdout sti @ [vocab_warning]\<rparr>"
    from vl a' have vl': "view_layer a' < 0" by simp
    from vr tb have vr': "view_rows (ntokens_of c)
          (fst (model_call env (map pdata (model_params sti)) (fst (test_get_batch (ds ! i)))
             (init_hidden env))) = Inl e" by simp
    show ?thesis unfolding stf by (rule eval_sentence_reshape_fails[OF vl' sent vr'])
  next
    assume vl: "0 \<le> view_layer a" and j: "j < length data"
      and pre: "view_layer_loop a' c env (ntokens_of c) (take j (zip data targets))
          (init_hidden env) sti = (stj, None)"
      and vr: "view_rows (ntokens_of c)
          (fst (model_call env (map pdata (model_params sti)) [data ! j]
             (hidden_after env (map pdata (model_params sti)) (take j data) (init_hidden env)))) =
          Inl e"
      and stf: "stf = stj\<lparr>model_params := zero_grad (model_params stj)\<rparr>"
    from vl a' have vl': "0 \<le> view_layer a'" by simp
    show ?thesis unfolding stf
      by (rule eval_sentence_view_reshape_fails[OF vl' sent tb j pre vr])
  qed
  have te: "test_evaluate a c f env ts ds st = (stf, a', Inl RuntimeError)"
    by (rule test_evaluate_raises[OF start before i es])
  have rt: "ts = (if multisentence_test a then [] else sents) \<longrightarrow>
       run_test c f env sents ds \<lparr>prog_tstate = st, prog_args = a, adapted_model = m\<rparr> =
         (\<lparr>prog_tstate = stf, prog_args = a', adapted_model = m\<rparr>, Some RuntimeError)"
  proof
    assume "ts = (if multisentence_test a then [] else sents)"
    with te have "test_evaluate a c f env (if multisentence_test a then [] else sents) ds st =
        (stf, a', Inl RuntimeError)" by simp
    then show "run_test c f env sents ds \<lparr>prog_tstate = st, prog_args = a, adapted_model = m\<rparr> =
         (\<lparr>prog_tstate = stf, prog_args = a', adapted_model = m\<rparr>, Some RuntimeError)"
      by (rule run_test_raises)
  qed
  have ib: "interact_body c f env (ts, ds) \<lparr>prog_tstate = st, prog_args = a, adapted_model = m\<rparr> =
      \<lparr>prog_tstate = stf\<lparr>stdout := stdout stf @ interact_message\<rparr>, prog_args = a',
       adapted_model = (if adapt a then Some (model_params stf) else m)\<rparr>"
    using interact_body_recovers[OF te, of m] a' by simp
  have il: "prompted p = \<lparr>prog_tstate = st, prog_args = a, adapted_model = m\<rparr> \<longrightarrow>
       interact_loop c f env ((ts, ds) # inputs) p =
         interact_loop c f env inputs
           \<lparr>prog_tstate = stf\<lparr>stdout := stdout stf @ interact_message\<rparr>, prog_args = a',
            adapted_model = (if adapt a then Some (model_params stf) else m)\<rparr>"
    using ib by simp
  from te rt ib il show ?thesis by (intro conjI)
qed

lemma str_nat_digit: "n < 10 \<Longrightarrow> str_nat n = [char_of (48 + n)]"
  by (simp add: str_nat.simps)

lemma str_int_2: "str_int 2 = ''2''"
  by code_simp

lemma demo_loss_sel:
  "\<not> words demo_loss_args" "view_layer demo_loss_args = - 1" "\<not> adapt demo_loss_args"
  "complexn demo_loss_args = 2"
  by (simp_all add: demo_loss_args_def demo_args_def)

lemma demo_eval_start:
  "eval_start demo_loss_args demo_corpus demo_st = (demo_loss_args, demo_started_st)"
  by (simp add: eval_start_def set_beamsize_def demo_ntokens demo_loss_sel str_int_2
      demo_started_st_def demo_st_def)

lemma demo_first_sentence:
  "eval_loop demo_loss_args demo_corpus demo_fmt demo_mixed_env [] [[0, 0, 1], [0, 1]] 2 [0..<1]
     demo_started_st = (demo_first_done_st, None)"
  by (simp add: eval_sentence_def test_get_batch_def demo_loss_sel demo_mixed_env_def
      demo_env_def view_rows_def upt2 demo_started_st_def demo_st_def demo_first_done_st_def
      demo_fmt_def)

theorem reshape_error_is_reraised_witness:
  "eval_start demo_loss_args demo_corpus demo_st = (demo_loss_args, demo_started_st) \<and>
   eval_loop demo_loss_args demo_corpus demo_fmt demo_mixed_env [] [[0, 0, 1], [0, 1]]
     (ntokens_of demo_corpus) [0..<1] demo_started_st = (demo_first_done_st, None) \<and>
   1 < length [[0, 0, 1], [0, 1 :: nat]] \<and> view_layer demo_loss_args < 0 \<and>
   test_get_batch ([[0, 0, 1], [0, 1]] ! 1) = ([0], [1]) \<and>
   view_rows (ntokens_of demo_corpus)
     (fst (model_call demo_mixed_env (map pdata (model_params demo_first_done_st)) [0]
        (init_hidden demo_mixed_env))) = Inl RuntimeError \<and>
   test_evaluate demo_loss_args demo_corpus demo_fmt demo_mixed_env [] [[0, 0, 1], [0, 1]] demo_st =
     (demo_first_done_st\<lparr>stdout := stdout demo_first_done_st @ [vocab_warning]\<rparr>,
      demo_loss_args, Inl RuntimeError) \<and>
   run_test demo_corpus demo_fmt demo_mixed_env [] [[0, 0, 1], [0, 1]]
     \<lparr>prog_tstate = demo_st, prog_args = demo_loss_args, adapted_model = None\<rparr> =
     (\<lparr>prog_tstate = demo_first_done_st\<lparr>stdout := stdout demo_first_done_st @ [vocab_warning]\<rparr>,
       prog_args = demo_loss_args, adapted_model = None\<rparr>, Some RuntimeError) \<and>
   interact_body demo_corpus demo_fmt demo_mixed_env ([], [[0, 0, 1], [0, 1]])
     \<lparr>prog_tstate = demo_st, prog_args = demo_loss_args, adapted_model = None\<rparr> =
     \<lparr>prog_tstate = demo_first_done_st\<lparr>stdout := [''f'', vocab_warning] @ interact_message\<rparr>,
      prog_args = demo_loss_args, adapted_model = None\<rparr>"
proof -
  have before: "eval_loop demo_loss_args demo_corpus demo_fmt demo_mixed_env [] [[0, 0, 1], [0, 1]]
     (ntokens_of demo_corpus) [0..<1] demo_started_st = (demo_first_done_st, None)"
    unfolding demo_ntokens by (rule demo_first_sentence)
  have i: "1 < length [[0, 0, 1], [0, 1 :: nat]]" by simp
  have sent: "([] :: string list) = [] \<or> 1 < length ([] :: string list)" by simp
  have vl: "view_layer demo_loss_args < 0" by (simp add: demo_loss_sel)
  have tb: "test_get_batch ([[0, 0, 1], [0, 1]] ! 1) = ([0], [1])"
    by (simp add: test_get_batch_def)
  have vr: "view_rows (ntokens_of demo_corpus)
     (fst (model_call demo_mixed_env (map pdata (model_params demo_first_done_st)) [0]
        (init_hidden demo_mixed_env))) = Inl RuntimeError"
    by (simp add: demo_ntokens demo_mixed_env_def demo_env_def view_rows_def)
  define stf where "stf = demo_first_done_st\<lparr>stdout := stdout demo_first_done_st @ [vocab_warning]\<rparr>"
  have bad: "(view_layer demo_loss_args < 0 \<and>
        view_rows (ntokens_of demo_corpus)
          (fst (model_call demo_mixed_env (map pdata (model_params demo_first_done_st)) [0]
             (init_hidden demo_mixed_env))) = Inl RuntimeError \<and>
        stf = demo_first_done_st\<lparr>stdout := stdout demo_first_done_st @ [vocab_warning]\<rparr>) \<or>
       (0 \<le> view_layer demo_loss_args \<and> 0 < length [0::nat] \<and>
        view_layer_loop demo_loss_args demo_corpus demo_mixed_env (ntokens_of demo_corpus)
          (take 0 (zip [0] [1])) (init_hidden demo_mixed_env) demo_first_done_st =
          (demo_first_done_st, None) \<and>
        view_rows (ntokens_of demo_corpus)
          (fst (model_call demo_mixed_env (map pdata (model_params demo_first_done_st)) [[0] ! 0]
             (hidden_after demo_mixed_env (map pdata (model_params demo_first_done_st))
                (take 0 [0]) (init_hidden demo_mixed_env)))) =
          Inl RuntimeError \<and>
        stf = demo_first_done_st\<lparr>model_params := zero_grad (model_params demo_first_done_st)\<rparr>)"
    using vl vr by (simp add: stf_def)
  note t = reshape_error_is_reraised[OF demo_eval_start before i sent tb bad,
      where sents = "[]" and m = None]
  have ms: "([] :: string list) = (if multisentence_test demo_loss_args then [] else [])" by simp
  have na: "\<not> adapt demo_loss_args" by (simp add: demo_loss_sel)
  have so: "stdout demo_first_done_st = [''f'']"
    by (simp add: demo_first_done_st_def demo_started_st_def demo_st_def)
  from t have te: "test_evaluate demo_loss_args demo_corpus demo_fmt demo_mixed_env []
      [[0, 0, 1], [0, 1]] demo_st = (stf, demo_loss_args, Inl RuntimeError)" by blast
  from t ms have rt: "run_test demo_corpus demo_fmt demo_mixed_env [] [[0, 0, 1], [0, 1]]
     \<lparr>prog_tstate = demo_st, prog_args = demo_loss_args, adapted_model = None\<rparr> =
     (\<lparr>prog_tstate = stf, prog_args = demo_loss_args, adapted_model = None\<rparr>, Some RuntimeError)"
    by blast
  from t na have ib: "interact_body demo_corpus demo_fmt demo_mixed_env ([], [[0, 0, 1], [0, 1]])
     \<lparr>prog_tstate = demo_st, prog_args = demo_loss_args, adapted_model = None\<rparr> =
     \<lparr>prog_tstate = stf\<lparr>stdout := stdout stf @ interact_message\<rparr>,
      prog_args = demo_loss_args, adapted_model = None\<rparr>"
    by simp
  have sf: "stf\<lparr>stdout := stdout stf @ interact_message\<rparr> =
      demo_first_done_st\<lparr>stdout := [''f'', vocab_warning] @ interact_message\<rparr>"
    by (simp add: stf_def so)
  from demo_eval_start before i vl tb vr te rt ib show ?thesis
    unfolding sf unfolding stf_def by (intro conjI)
qed

text \<open>
  C9 as stated fails three times. With \<open>view_layer\<close> set, a reshape that raises ends the
  evaluation with its \<open>RuntimeError\<close> and no warning is printed. Evaluation raises when
  no reshape does: an empty data source ends in a \<open>ZeroDivisionError\<close>. And the
  interactive run does recover: after a sentence whose output cannot be reshaped it prints
  the warning and its own message, prompts again and evaluates the next sentence, whose
  loss it prints.
\<close>

theorem reshape_error_without_warning_and_other_errors:
  "snd (snd (test_evaluate demo_view_args demo_corpus demo_fmt demo_bad_env [] [[0, 0, 1]]
       demo_st)) = Inl RuntimeError \<and>
   vocab_warning \<notin> set (stdout (fst (test_evaluate demo_view_args demo_corpus demo_fmt
       demo_bad_env [] [[0, 0, 1]] demo_st))) \<and>
   snd (snd (test_evaluate demo_args demo_corpus demo_fmt demo_env [] [] demo_st)) =
     Inl ZeroDivisionError \<and>
   stdout (prog_tstate (interact_loop demo_corpus demo_fmt demo_mixed_env
       [([], [[0, 1]]), ([], [[0, 0, 1]])]
       \<lparr>prog_tstate = demo_st, prog_args = demo_loss_args, adapted_model = None\<rparr>)) =
     [interact_prompt, vocab_warning] @ interact_message @
     [interact_prompt, ''f'', interact_prompt, '' '']"
proof -
  have a: "snd (snd (test_evaluate demo_view_args demo_corpus demo_fmt demo_bad_env [] [[0, 0, 1]]
       demo_st)) = Inl RuntimeError \<and>
   vocab_warning \<notin> set (stdout (fst (test_evaluate demo_view_args demo_corpus demo_fmt
       demo_bad_env [] [[0, 0, 1]] demo_st))) \<and>
   snd (snd (test_evaluate demo_args demo_corpus demo_fmt demo_env [] [] demo_st)) =
     Inl ZeroDivisionError"
    by (simp add: test_evaluate_def eval_start_def set_beamsize_def demo_ntokens demo_view_args_def
      demo_args_def eval_sentence_def test_get_batch_def demo_bad_env_def demo_env_def
      view_rows_def demo_st_def header_line_def header_base_def vocab_warning_def
      py_div_count_def)
  have b: "stdout (prog_tstate (interact_loop demo_corpus demo_fmt demo_mixed_env
       [([], [[0, 1]]), ([], [[0, 0, 1]])]
       \<lparr>prog_tstate = demo_st, prog_args = demo_loss_args, adapted_model = None\<rparr>)) =
     [interact_prompt, vocab_warning] @ interact_message @
     [interact_prompt, ''f'', interact_prompt, '' '']"
    by (simp add: interact_body_def prompted_def test_evaluate_def eval_start_def set_beamsize_def
        demo_ntokens demo_loss_sel eval_sentence_def test_get_batch_def demo_mixed_env_def
        demo_env_def view_rows_def demo_st_def py_div_count_def demo_fmt_def upt2)
  from a b show ?thesis by (intro conjI) simp_all
qed
section \<open>Layout of the rows and of the header\<close>

















lemma length_row_fields: "length (row_fields f r) = 7"
  by (simp add: row_fields_def)


lemma beam_cong:
  "complexn a = complexn b \<Longrightarrow> softcliptopk a = softcliptopk b \<Longrightarrow> beam a = beam b"
  by (rule ext) (simp add: beam_def split: sum.splits)

lemma complexity_Hs_cong:
  assumes "complexn a = complexn b" "softcliptopk a = softcliptopk b"
  shows "complexity_Hs a = complexity_Hs b"
proof -
  have "get_entropy a = get_entropy b"
    by (rule ext) (simp add: get_entropy_def beam_cong[OF assms])
  then show ?thesis by (rule_tac ext) (simp add: complexity_Hs_def)
qed

lemma complexity_surps_cong:
  assumes "complexn a = complexn b" "softcliptopk a = softcliptopk b"
  shows "complexity_surps a = complexity_surps b"
proof -
  have "get_surps a = get_surps b"
    by (rule ext) (simp add: get_surps_def beam_cong[OF assms])
  then show ?thesis by (rule_tac ext) (simp add: complexity_surps_def)
qed



lemma demo_guess_sel:
  "guess demo_guess_args" "guessn demo_guess_args = 1" "csep demo_guess_args = '' ''"
  "\<not> guessscores demo_guess_args" "\<not> guessratios demo_guess_args"
  "\<not> guessprobs demo_guess_args" "complexn demo_guess_args = 2"
  "complexn demo_guess_args = complexn demo_args"
  "softcliptopk demo_guess_args = softcliptopk demo_args"
  by (simp_all add: demo_guess_args_def demo_args_def)


lemma demo_guesses:
  "apply_rows (get_guesses demo_guess_args) demo_state = Inr [[1], [0], [1], [0]]"
  "apply_rows (get_guessscores demo_guess_args) demo_state = Inr [[ln 3], [0], [ln 3], [0]]"
  by (simp_all add: apply_rows_def get_guesses_def get_guessscores_def topk_def demo_guess_sel
      demo_state_def upt2)


lemma demo_guess_rows:
  "get_complexity_rows demo_guess_args demo_corpus demo_fmt demo_state demo_obs 7 =
     ([demo_row0\<lparr>row_guesses := Some [''<eos>'']\<rparr>, demo_row1\<lparr>row_guesses := Some [''the'']\<rparr>,
       demo_row2\<lparr>row_guesses := Some [''<eos>'']\<rparr>], None)"
  using demo_H0_less_1
  by (simp add: get_complexity_rows_def demo_guesses demo_guess_sel demo_obs_def upt4
      complexity_Hs_cong[OF demo_guess_sel(8,9)] complexity_surps_cong[OF demo_guess_sel(8,9)]
      demo_Hs demo_csurps guess_score_def
      complexity_row_def nth_err_def entred_at_def py_max0_def fl_sub_def demo_corpus_def
      demo_row0_def demo_row1_def demo_row2_def)


lemma str_nat_digits:
  "str_nat 0 = ''0''" "str_nat 1 = ''1''" "str_nat 3 = ''3''" "str_nat 7 = ''7''"
  "str_int 0 = ''0''" "str_nat (Suc 0) = ''1''"
  by code_simp+



lemma demo_guess_header:
  "header_line demo_guess_args 2 = ''word sentid sentpos wlen surp entropy entred guess0''"
  by (simp add: header_line_def header_base_def guess_header_def demo_guess_sel str_nat_digits)








text \<open>
  With \<open>guessratios\<close> and \<open>guessprobs\<close> both set the row holds the ratio, which its
  code tests first, and the header, which tests the flags in the other order, says
  \<open>gprob\<close>: for the scores 2 and 1 the second guess has the ratio \<open>1 / 2\<close>, and its
  probability is another number.
\<close>

lemma header_says_gprob_over_ratio:
  "guess_header demo_gboth_args 1 = '' guess1 gprob1'' \<and>
   guess_score demo_gboth_args f [2, 1] 1 = Inr [fmt3 f (Flt (1 / 2))] \<and>
   softmax_prob [2, 1] 1 \<noteq> 1 / 2"
proof -
  have "exp (1::real) < exp 2" by simp
  then have "exp (1::real) / (exp 2 + exp 1) \<noteq> 1 / 2"
    by (simp add: field_simps)
  then show ?thesis
    by (simp add: guess_header_def guess_score_def demo_gboth_args_def demo_args_def
        nth_err_def str_nat_digits softmax_prob_pair)
qed
section \<open>Checkpoints, annealing and early stopping\<close>

lemma streak_snoc:
  "streak (hs @ [v]) = (if improving hs v then 0 else Suc (streak hs))"
  by (simp add: streak_def improving_def)

lemma improving_Min:
  "hs \<noteq> [] \<Longrightarrow> improving hs v \<longleftrightarrow> v < Min (set hs)"
  by (simp add: improving_def)

lemma Min_snoc:
  "hs \<noteq> [] \<Longrightarrow> Min (set (hs @ [v])) = min v (Min (set hs))"
  using Min_insert[of "set hs" v] by simp

lemma epoch_step_Inr:
  "(\<exists>r. epoch_step e v st = Inr r) \<longleftrightarrow> exp v \<le> float64_max"
  by (auto simp: epoch_step_def)

lemma epoch_step_inv:
  assumes inv: "train_inv hs st" and nz: "\<forall>u\<in>set hs. u \<noteq> 0"
    and step: "epoch_step (Suc (length hs)) v st = Inr (st', continue)"
  shows "(model_file st' = Some (Suc (length hs)) \<longleftrightarrow> improving hs v)"
    "no_improvement st' = streak (hs @ [v])"
    "lr_cur st' = (if improving hs v \<or> 3 \<le> streak (hs @ [v]) then lr_cur st else lr_cur st / 4)"
    "continue \<longleftrightarrow> streak (hs @ [v]) < 3"
    "continue \<longrightarrow> train_inv (hs @ [v]) st'"
proof -
  have imp: "(case best_val_loss st of None \<Rightarrow> True | Some b \<Rightarrow> b = 0 \<or> v < b) \<longleftrightarrow> improving hs v"
  proof (cases "hs = []")
    case True
    with inv show ?thesis by (simp add: train_inv_def improving_def)
  next
    case False
    then have "Min (set hs) \<in> set hs" by simp
    with nz have "Min (set hs) \<noteq> 0" by blast
    with False inv show ?thesis by (simp add: train_inv_def improving_Min)
  qed
  have mf: "model_file st \<noteq> Some (Suc (length hs))"
    using inv by (auto simp: train_inv_def)
  have ni: "no_improvement st = streak hs" "streak hs < 3"
    using inv by (simp_all add: train_inv_def)
  show "(model_file st' = Some (Suc (length hs)) \<longleftrightarrow> improving hs v)"
    using step imp mf by (auto simp: epoch_step_def split: if_splits)
  show "no_improvement st' = streak (hs @ [v])"
    using step imp ni by (auto simp: epoch_step_def streak_snoc split: if_splits)
  show "lr_cur st' = (if improving hs v \<or> 3 \<le> streak (hs @ [v]) then lr_cur st else lr_cur st / 4)"
    using step imp ni by (auto simp: epoch_step_def streak_snoc split: if_splits)
  show c: "continue \<longleftrightarrow> streak (hs @ [v]) < 3"
    using step imp ni by (auto simp: epoch_step_def streak_snoc split: if_splits)
  show "continue \<longrightarrow> train_inv (hs @ [v]) st'"
  proof
    assume continue
    with c have s3: "streak (hs @ [v]) < 3" by simp
    have best: "best_val_loss st' = Some (Min (set (hs @ [v])))"
    proof (cases "hs = []")
      case True
      with step imp show ?thesis
        by (auto simp: epoch_step_def improving_def split: if_splits)
    next
      case False
      define m where "m = Min (set hs)"
      from False inv have b: "best_val_loss st = Some m" by (simp add: train_inv_def m_def)
      have im: "improving hs v \<longleftrightarrow> v < m" unfolding m_def by (rule improving_Min[OF False])
      have mn: "Min (set (hs @ [v])) = min v m" unfolding m_def by (rule Min_snoc[OF False])
      show ?thesis
        unfolding mn using step imp b im
        by (auto simp: epoch_step_def min_def split: if_splits)
    qed
    have mf': "\<forall>x. model_file st' = Some x \<longrightarrow> x \<le> length (hs @ [v])"
      using step inv by (auto simp: epoch_step_def train_inv_def split: if_splits)
    show "train_inv (hs @ [v]) st'"
      unfolding train_inv_def
      using best s3 mf' \<open>no_improvement st' = streak (hs @ [v])\<close> by simp
  qed
qed

lemma epoch_trace_first:
  "fst (epoch_trace e (v # rest) st) \<noteq> [] \<longleftrightarrow> exp v \<le> float64_max"
  by (auto simp: epoch_step_def split: prod.splits)

text \<open>
  The only exception of the loop is the one of the report, and there is none when no
  validation loss is that large.
\<close>

lemma epoch_trace_error:
  "snd (epoch_trace e vs st) = Some err \<Longrightarrow> err = OverflowError"
proof (induction vs arbitrary: e st)
  case Nil
  then show ?case by simp
next
  case (Cons v rest)
  show ?case
  proof (cases "epoch_step e v st")
    case (Inl x)
    with Cons.prems show ?thesis
      by (auto simp: epoch_step_def split: if_splits)
  next
    case (Inr r)
    obtain st' cont where r: "r = (st', cont)" by (cases r)
    show ?thesis
    proof (cases cont)
      case True
      with Cons.prems Inr r have "snd (epoch_trace (Suc e) rest st') = Some err"
        by (simp split: prod.splits)
      then show ?thesis by (rule Cons.IH)
    next
      case False
      with Cons.prems Inr r show ?thesis by simp
    qed
  qed
qed

lemma epoch_trace_no_error:
  "\<forall>u\<in>set vs. exp u \<le> float64_max \<Longrightarrow> snd (epoch_trace e vs st) = None"
proof (induction vs arbitrary: e st)
  case Nil
  then show ?case by simp
next
  case (Cons v rest)
  from Cons.prems have "exp v \<le> float64_max" by simp
  then obtain st' cont where step: "epoch_step e v st = Inr (st', cont)"
    using epoch_step_Inr[of e v st] by auto
  from Cons.prems have "snd (epoch_trace (Suc e) rest st') = None"
    by (intro Cons.IH) simp
  with step show ?case by (auto split: prod.splits)
qed

lemma epoch_trace_steps:
  assumes "train_inv hs st" "\<forall>u\<in>set (hs @ vs). u \<noteq> 0"
    and "k < length (fst (epoch_trace (Suc (length hs)) vs st))"
  shows "k < length vs \<and>
    (model_file (fst (epoch_trace (Suc (length hs)) vs st) ! k) = Some (Suc (length hs + k)) \<longleftrightarrow>
       improving (take (length hs + k) (hs @ vs)) ((hs @ vs) ! (length hs + k))) \<and>
    no_improvement (fst (epoch_trace (Suc (length hs)) vs st) ! k) =
       streak (take (Suc (length hs + k)) (hs @ vs)) \<and>
    lr_cur (fst (epoch_trace (Suc (length hs)) vs st) ! k) =
       (if improving (take (length hs + k) (hs @ vs)) ((hs @ vs) ! (length hs + k)) \<or>
           3 \<le> streak (take (Suc (length hs + k)) (hs @ vs))
        then lr_cur ((st # fst (epoch_trace (Suc (length hs)) vs st)) ! k)
        else lr_cur ((st # fst (epoch_trace (Suc (length hs)) vs st)) ! k) / 4) \<and>
    (Suc k < length (fst (epoch_trace (Suc (length hs)) vs st)) \<longleftrightarrow>
       streak (take (Suc (length hs + k)) (hs @ vs)) < 3 \<and> Suc k < length vs \<and>
       exp (vs ! Suc k) \<le> float64_max)"
  using assms
proof (induction vs arbitrary: hs st k)
  case Nil
  then show ?case by simp
next
  case (Cons v rest)
  from Cons.prems(3) have "fst (epoch_trace (Suc (length hs)) (v # rest) st) \<noteq> []"
    by auto
  then have "exp v \<le> float64_max" by (simp only: epoch_trace_first)
  then obtain st' cont where step: "epoch_step (Suc (length hs)) v st = Inr (st', cont)"
    using epoch_step_Inr[of "Suc (length hs)" v st] by auto
  let ?tr' = "fst (epoch_trace (Suc (Suc (length hs))) rest st')"
  have tr: "fst (epoch_trace (Suc (length hs)) (v # rest) st) = st' # (if cont then ?tr' else [])"
    by (simp add: step split: prod.splits)
  have nz: "\<forall>u\<in>set hs. u \<noteq> 0" using Cons.prems(2) by simp
  note si = epoch_step_inv[OF Cons.prems(1) nz step]
  show ?case
  proof (cases k)
    case 0
    have ne: "?tr' \<noteq> [] \<longleftrightarrow> rest \<noteq> [] \<and> exp (rest ! 0) \<le> float64_max"
      by (cases rest) (simp, simp add: epoch_trace_first del: epoch_trace.simps)
    have "Suc 0 < length (st' # (if cont then ?tr' else [])) \<longleftrightarrow>
          cont \<and> rest \<noteq> [] \<and> exp (rest ! 0) \<le> float64_max"
      using ne by (cases "?tr'") auto
    with si 0 show ?thesis unfolding tr by simp
  next
    case (Suc k')
    with Cons.prems(3) have cont: cont and k': "k' < length ?tr'"
      unfolding tr by (auto split: if_splits)
    from si(5) cont have inv': "train_inv (hs @ [v]) st'" by simp
    have nz': "\<forall>u\<in>set ((hs @ [v]) @ rest). u \<noteq> 0" using Cons.prems(2) by simp
    have l: "Suc (length (hs @ [v])) = Suc (Suc (length hs))" by simp
    from Cons.IH[OF inv' nz', unfolded l, OF k']
    show ?thesis unfolding tr Suc using cont by simp
  qed
qed

lemma train_inv_start: "train_inv [] (train_start lr0)"
  by (simp add: train_inv_def train_start_def streak_def)

text \<open>
  C6, as the code has it, for validation losses that are not \<open>0\<close> and whose
  \<open>math.exp\<close> is a float (losses up to about 709.78). The loop ends without an
  exception. After epoch \<open>k+1\<close> the model file holds the model of that epoch exactly
  when its validation loss is strictly lower than that of every earlier epoch; the counter
  is the number of epochs in a row without such an improvement; the learning rate is
  divided by 4 on an epoch without improvement unless it is the third in a row, which ends
  the training instead; and the loop goes on to the next epoch exactly when fewer than
  three epochs in a row did not improve and an epoch is left.
\<close>

theorem checkpoint_annealing_and_early_stop:
  assumes ok: "\<forall>u\<in>set vs. u \<noteq> 0 \<and> exp u \<le> float64_max"
    and k: "k < length (fst (epoch_trace 1 vs (train_start lr0)))"
  shows "snd (epoch_trace 1 vs (train_start lr0)) = None \<and> k < length vs \<and>
    (model_file (fst (epoch_trace 1 vs (train_start lr0)) ! k) = Some (Suc k) \<longleftrightarrow>
       improving (take k vs) (vs ! k)) \<and>
    no_improvement (fst (epoch_trace 1 vs (train_start lr0)) ! k) = streak (take (Suc k) vs) \<and>
    lr_cur (fst (epoch_trace 1 vs (train_start lr0)) ! k) =
       (if improving (take k vs) (vs ! k) \<or> 3 \<le> streak (take (Suc k) vs)
        then lr_cur ((train_start lr0 # fst (epoch_trace 1 vs (train_start lr0))) ! k)
        else lr_cur ((train_start lr0 # fst (epoch_trace 1 vs (train_start lr0))) ! k) / 4) \<and>
    (Suc k < length (fst (epoch_trace 1 vs (train_start lr0))) \<longleftrightarrow>
       streak (take (Suc k) vs) < 3 \<and> Suc k < length vs)"
proof -
  from ok have nz: "\<forall>u\<in>set ([] @ vs). u \<noteq> 0" and fin: "\<forall>u\<in>set vs. exp u \<le> float64_max"
    by simp_all
  have ne: "snd (epoch_trace 1 vs (train_start lr0)) = None"
    using fin by (rule epoch_trace_no_error)
  have nx: "Suc k < length vs \<Longrightarrow> exp (vs ! Suc k) \<le> float64_max"
    using fin by simp
  from epoch_trace_steps[of "[]" "train_start lr0" vs k] train_inv_start[of lr0] nz k ne nx
  show ?thesis by auto
qed

lemma demo_trace_eval:
  "demo_trace =
    [\<lparr>lr_cur = 20, best_val_loss = Some 3, no_improvement = 0, model_file = Some 1\<rparr>,
     \<lparr>lr_cur = 20, best_val_loss = Some 2, no_improvement = 0, model_file = Some 2\<rparr>,
     \<lparr>lr_cur = 5, best_val_loss = Some 2, no_improvement = 1, model_file = Some 2\<rparr>,
     \<lparr>lr_cur = 5 / 4, best_val_loss = Some 2, no_improvement = 2, model_file = Some 2\<rparr>,
     \<lparr>lr_cur = 5 / 4, best_val_loss = Some 1, no_improvement = 0, model_file = Some 5\<rparr>,
     \<lparr>lr_cur = 5 / 16, best_val_loss = Some 1, no_improvement = 1, model_file = Some 5\<rparr>,
     \<lparr>lr_cur = 5 / 64, best_val_loss = Some 1, no_improvement = 2, model_file = Some 5\<rparr>,
     \<lparr>lr_cur = 5 / 64, best_val_loss = Some 1, no_improvement = 3, model_file = Some 5\<rparr>]"
  by (simp add: demo_trace_def demo_losses_def train_start_def epoch_step_def math_exp_ok
      del: math_exp.simps)

text \<open>
  C6 as stated fails on the epoch that ends the training: in the example run epoch 8 is
  the third epoch in a row without improvement, and the learning rate after it is the
  learning rate after epoch 7, not a quarter of it.
\<close>

theorem no_annealing_on_stopping_epoch:
  "length demo_losses = 9 \<and> length demo_trace = 8 \<and>
   \<not> improving (take 7 demo_losses) (demo_losses ! 7) \<and>
   lr_cur (demo_trace ! 6) = 5 / 64 \<and> lr_cur (demo_trace ! 7) = 5 / 64 \<and>
   lr_cur (demo_trace ! 7) \<noteq> lr_cur (demo_trace ! 6) / 4"
  by (simp add: demo_trace_eval) (simp add: demo_losses_def improving_def)

theorem checkpoint_annealing_and_early_stop_witness:
  "0 \<notin> set demo_losses \<and> Max (set demo_losses) = 9 \<and>
   snd (epoch_trace 1 demo_losses (train_start 20)) = None \<and> 7 < length (fst (epoch_trace 1 demo_losses (train_start 20))) \<and>
   improving (take 4 demo_losses) (demo_losses ! 4) \<and>
   model_file (fst (epoch_trace 1 demo_losses (train_start 20)) ! 4) = Some 5 \<and>
   \<not> improving (take 2 demo_losses) (demo_losses ! 2) \<and>
   model_file (fst (epoch_trace 1 demo_losses (train_start 20)) ! 2) \<noteq> Some 3 \<and>
   lr_cur (fst (epoch_trace 1 demo_losses (train_start 20)) ! 2) =
     lr_cur (fst (epoch_trace 1 demo_losses (train_start 20)) ! 1) / 4 \<and>
   streak (take 8 demo_losses) = 3 \<and>
   no_improvement (fst (epoch_trace 1 demo_losses (train_start 20)) ! 7) = 3 \<and>
   lr_cur (fst (epoch_trace 1 demo_losses (train_start 20)) ! 7) =
     lr_cur (fst (epoch_trace 1 demo_losses (train_start 20)) ! 6) \<and>
   \<not> 8 < length (fst (epoch_trace 1 demo_losses (train_start 20)))"
proof -
  let ?tr = "fst (epoch_trace 1 demo_losses (train_start 20))"
  have tr: "?tr = demo_trace" by (simp add: demo_trace_def)
  have "\<forall>u\<in>set demo_losses. u \<noteq> 0 \<and> u \<le> 600" by (simp add: demo_losses_def)
  then have nz: "\<forall>u\<in>set demo_losses. u \<noteq> 0 \<and> exp u \<le> float64_max"
    using exp_le_float64_max by blast
  have nz': "0 \<notin> set demo_losses" "Max (set demo_losses) = 9"
    by (simp_all add: demo_losses_def)
  have k7: "7 < length ?tr" and k4: "4 < length ?tr" and k2: "2 < length ?tr"
    unfolding tr by (simp_all add: demo_trace_eval)
  have i4: "improving (take 4 demo_losses) (demo_losses ! 4)"
    and i2: "\<not> improving (take 2 demo_losses) (demo_losses ! 2)"
    and i7: "\<not> improving (take 7 demo_losses) (demo_losses ! 7)"
    by (simp_all add: demo_losses_def improving_def)
  have s3: "streak (take 3 demo_losses) = 1" and s8: "streak (take 8 demo_losses) = 3"
    by (simp_all add: demo_losses_def streak_def improving_def)
  note t7 = checkpoint_annealing_and_early_stop[OF nz k7]
  note t4 = checkpoint_annealing_and_early_stop[OF nz k4]
  note t2 = checkpoint_annealing_and_early_stop[OF nz k2]
  from t4 i4 have c4: "model_file (?tr ! 4) = Some 5" by simp
  from t2 i2 s3 have c2: "model_file (?tr ! 2) \<noteq> Some 3"
    "lr_cur (?tr ! 2) = lr_cur (?tr ! 1) / 4"
    by (simp_all add: numeral_3_eq_3 numeral_2_eq_2)
  from t7 have c0: "snd (epoch_trace 1 demo_losses (train_start 20)) = None" by simp
  from t7 i7 s8 have c7: "no_improvement (?tr ! 7) = 3" "lr_cur (?tr ! 7) = lr_cur (?tr ! 6)"
    "\<not> 8 < length ?tr"
    by (simp_all add: eval_nat_numeral)
  from nz' c0 k7 i4 c4 i2 c2 s8 c7 show ?thesis by blast
qed

text \<open>
  The condition \<open>not best_val_loss\<close> also holds for a best loss of \<open>0.0\<close>: after a
  validation loss of exactly zero the next epoch saves the model whatever its loss.
\<close>

lemma zero_best_loss_saves_again:
  "map model_file (fst (epoch_trace 1 [0, 5] (train_start 20))) = [Some 1, Some 2]"
  by (simp add: train_start_def epoch_step_def math_exp_ok del: math_exp.simps)

text \<open>
  A validation loss of 800 has no \<open>math.exp\<close>: the report of the epoch raises before
  the test for the checkpoint, and the first epoch ends the training with nothing saved.
\<close>

lemma overflowing_loss_ends_training:
  "epoch_trace 1 [800] (train_start 20) = ([], Some OverflowError)"
proof -
  have "2 < exp (25 / 32 :: real)"
    using exp_lower_Taylor_quadratic[of "25 / 32 :: real"] by (simp add: power2_eq_square)
  have "float64_max < 2 ^ 1024" by (simp add: float64_max_def)
  also have "(2::real) ^ 1024 < exp (25 / 32) ^ 1024"
    using \<open>2 < exp (25 / 32 :: real)\<close> by (intro power_strict_mono) simp_all
  also have "\<dots> = exp (of_nat 1024 * (25 / 32))" by (simp only: exp_of_nat_mult)
  also have "\<dots> = exp 800" by simp
  finally have "math_exp (Flt 800) = Inl OverflowError" by simp
  then show ?thesis by (simp add: epoch_step_def)
qed

section \<open>Aggregation of the result files\<close>

text \<open>
  C5 on the example file. The surprisals of the final words of the four sentences are 1,
  2, 3 and 4, the last one on the last row of the file. The value the code appends after
  the loop is \<open>surp\<close>, which still holds the surprisal of the sentence before: the entry
  is made of 1, 2, 3 and 3, and the mean reported for \<open>HIGH PL\<close> is 3, not 4.
\<close>

theorem last_sentence_surprisal_is_stale:
  "final_surps demo_file = [1, 2, 3, 4] \<and>
   compile_exp [demo_file] None =
     Inr (\<lparr>HIGH_SG = 1, LOW_SG = 2, HIGH_PL = 3, LOW_PL = 3\<rparr>, Some 3)"
  by (simp add: demo_file_def compile_exp_def read_file_def line_step_def append_surp_def
      Entry_def mean_def)

text \<open>
  In a first file that holds a single sentence \<open>surp\<close> is never assigned, and the
  statement after the loop raises.
\<close>

lemma single_sentence_file_raises:
  "compile_exp
     [[\<lparr>line_sentid = 0, line_surp = 9\<rparr>, \<lparr>line_sentid = 0, line_surp = 1\<rparr>]] None =
   Inl NameError"
  by (simp add: compile_exp_def read_file_def line_step_def)

section \<open>Overflow of the surprisal\<close>

lemma float32_max_less_exp_100: "float32_max < exp (100::real)"
proof -
  have "5 / 2 \<le> exp (1::real)"
    using exp_lower_Taylor_quadratic[of "1::real"] by simp
  have "float32_max * 2 ^ 100 < 5 ^ 100" by (simp add: float32_max_def)
  then have "float32_max < (5 / 2) ^ 100" by (simp add: power_divide pos_less_divide_eq)
  also have "\<dots> \<le> exp (1::real) ^ 100"
    using \<open>5 / 2 \<le> exp (1::real)\<close> by (intro power_mono) simp_all
  also have "\<dots> = exp (of_nat 100 * (1::real))" by (simp only: exp_of_nat_mult)
  finally show ?thesis by simp
qed

lemma rows_of_two_positions:
  assumes "complexity_Hs a state = Inr (Vector [h0, h1])"
    and "complexity_surps a state = Inr [[s00, s01], [s10, s11]]"
    and "\<not> guess a" and "idx2word c = [''the'', ''<eos>'']"
  shows "map row_sentpos (fst (get_complexity_rows a c f state [0, 0] sentid)) = [0, 1]"
    and "map row_surp (fst (get_complexity_rows a c f state [0, 0] sentid)) = [s00, s10]"
  using assms
  by (simp_all add: get_complexity_rows_def complexity_row_def nth_err_def entred_at_def upt2)

lemma demo_far_Hs: "\<exists>h0 h1. complexity_Hs demo_args demo_far_state = Inr (Vector [h0, h1])"
proof -
  have "get_entropy demo_args [0, 100] =
      Inr (Flt (entropy_nats (softmax_prob [0, 100]) {..<length [0::real, 100]}))"
    "get_entropy demo_args [0, 0] =
      Inr (Flt (entropy_nats (softmax_prob [0, 0]) {..<length [0::real, 0]}))"
    by (rule get_entropy_full; simp add: demo_args_sel)+
  then show ?thesis
    by (simp add: complexity_Hs_def apply_rows_def demo_far_state_def squeeze_def
        del: torch_exp.simps)
qed

lemma demo_far_surps:
  "\<exists>s01. complexity_surps demo_args demo_far_state = Inr [[PosInf, s01], [Flt 1, Flt 1]]"
proof -
  have s0: "get_surps demo_args [0, 100] =
      Inr [Flt (- ln (1 / (1 + exp 100))), Flt (- ln (exp 100 / (1 + exp 100)))]"
  proof -
    have "get_surps demo_args [0, 100] =
        Inr (map (\<lambda>i. Flt (- ln (softmax_prob [0, 100] i))) [0..<length [0::real, 100]])"
      by (rule get_surps_full) (simp_all add: demo_args_sel)
    then show ?thesis by (simp add: upt2 softmax_prob_pair)
  qed
  have pos: "0 < 1 + exp (100::real)" by (simp add: add_pos_pos)
  then have "exp (- ln (1 / (1 + exp (100::real)))) = 1 + exp 100"
    by (simp add: ln_div)
  with float32_max_less_exp_100 have "float32_max < exp (- ln (1 / (1 + exp (100::real))))"
    by simp
  then have inf: "fl_log2 (torch_exp (Flt (- ln (1 / (1 + exp (100::real)))))) = PosInf"
    by (rule bits_of_nats_overflow)
  have one: "fl_log2 (torch_exp (Flt (ln 2))) = Flt 1"
    using bits_small[OF demo_small(1)] by simp
  show ?thesis
    unfolding complexity_surps_def
    by (simp add: apply_rows_def demo_far_state_def s0 demo_surps_uniform inf one
        del: torch_exp.simps)
qed

text \<open>
  C2 on the example scores, with \<open>complexn\<close> the vocabulary size. A row is printed for
  each of the two positions. The softmax probability of the observed word at the first
  position is \<open>1 / (1 + exp 100)\<close>, whose negative logarithm is a finite number (about
  144.3 bits); the surprisal in nats is about 100, \<open>torch.exp\<close> of it is beyond the
  32-bit floats, and the surp field of the row is \<open>inf\<close>.
\<close>

theorem surprisal_overflows_to_inf:
  "complexn demo_args = int (ntokens_of demo_corpus) \<and>
   map length demo_far_state = [ntokens_of demo_corpus, ntokens_of demo_corpus] \<and>
   map row_sentpos
     (fst (get_complexity_rows demo_args demo_corpus demo_fmt demo_far_state [0, 0] 7)) = [0, 1] \<and>
   map row_surp
     (fst (get_complexity_rows demo_args demo_corpus demo_fmt demo_far_state [0, 0] 7)) =
     [PosInf, Flt 1] \<and>
   Flt (- log 2 (softmax_prob (demo_far_state ! 0) ([0, 0] ! 0))) = Flt (log 2 (1 + exp 100))"
proof -
  obtain h0 h1 where Hs: "complexity_Hs demo_args demo_far_state = Inr (Vector [h0, h1])"
    using demo_far_Hs by blast
  obtain s01 where
    surps: "complexity_surps demo_args demo_far_state = Inr [[PosInf, s01], [Flt 1, Flt 1]]"
    using demo_far_surps by blast
  have g: "\<not> guess demo_args" by (simp add: demo_args_sel)
  have w: "idx2word demo_corpus = [''the'', ''<eos>'']" by (simp add: demo_corpus_def)
  note rows = rows_of_two_positions[OF Hs surps g w, of demo_fmt 7]
  have p: "softmax_prob (demo_far_state ! 0) ([0, 0] ! 0) = 1 / (1 + exp 100)"
    by (simp add: demo_far_state_def softmax_prob_pair)
  have pos: "0 < 1 + exp (100::real)" by (simp add: add_pos_pos)
  then have "- log 2 (1 / (1 + exp (100::real))) = log 2 (1 + exp 100)"
    by (simp add: log_divide)
  with p rows show ?thesis
    by (simp add: demo_args_sel demo_ntokens demo_far_state_def)
qed

text \<open>
  The squeeze of the entropies: for a sentence with a single position they are a tensor
  without dimension, and the first row to print raises.
\<close>

lemma single_position_raises:
  "get_complexity_rows demo_args demo_corpus demo_fmt [[0, 0]] [0] 7 = ([], Some IndexError)"
proof -
  obtain T where T: "complexity_Hs demo_args [[0, 0]] = Inr T"
    by (auto simp: complexity_Hs_def apply_rows_def demo_entropy_uniform)
  from complexity_Hs_single[OF T] obtain h where h: "T = Scalar h" by blast
  have s: "complexity_surps demo_args [[0, 0]] = Inr [[Flt 1, Flt 1]]"
    using bits_small[OF demo_small(1)]
    by (simp add: complexity_surps_def apply_rows_def demo_surps_uniform del: torch_exp.simps)
  show ?thesis
    by (simp add: get_complexity_rows_def T h s demo_args_sel complexity_row_def nth_err_def
        demo_corpus_def)
qed

end
